theory Spec2Isabelle
  imports Main
begin

section \<open>Python values\<close>

text \<open>
  A Python \<open>str\<close> is a sequence of Unicode code points and a \<open>bytes\<close> object a
  sequence of numbers below 256; both are lists of naturals here. \<open>ascii\<close> turns a
  literal of the source into its code points.
\<close>

type_synonym ustr = "nat list"
type_synonym bytes = "nat list"

definition ascii :: "string \<Rightarrow> nat list" where
  "ascii s = map of_char s"

text \<open>
  The values \<open>json.loads\<close> produces: \<open>None\<close>, \<open>bool\<close>, \<open>int\<close>, \<open>float\<close>, \<open>str\<close>,
  \<open>list\<close> and \<open>dict\<close> (insertion-ordered, keys are strings). A float is carried by
  its \<open>repr\<close>, which is all the program ever does with one besides testing it
  for zero.
\<close>

datatype json =
    JNull
  | JBool bool
  | JInt int
  | JFloat ustr
  | JStr ustr
  | JArr "json list"
  | JObj "(ustr \<times> json) list"

datatype py_exn =
    TypeError
  | AttributeError
  | ValueError ustr
  | JSONDecodeError ustr
  | BinasciiError ustr
  | KeyError
  | CalledProcessError bytes
  | OtherError ustr

text \<open>\<open>bool(v)\<close>, as \<open>if v:\<close>, \<open>not v\<close> and \<open>v or d\<close> use it.\<close>

fun truthy :: "json \<Rightarrow> bool" where
  "truthy JNull = False"
| "truthy (JBool b) = b"
| "truthy (JInt i) = (i \<noteq> 0)"
| "truthy (JFloat r) = (r \<noteq> ascii ''0.0'' \<and> r \<noteq> ascii ''-0.0'')"
| "truthy (JStr s) = (s \<noteq> [])"
| "truthy (JArr xs) = (xs \<noteq> [])"
| "truthy (JObj kvs) = (kvs \<noteq> [])"

text \<open>An optional string argument (\<open>str | None\<close>) as a Python value.\<close>

fun opt_truthy :: "ustr option \<Rightarrow> bool" where
  "opt_truthy None = False"
| "opt_truthy (Some s) = (s \<noteq> [])"

subsection \<open>String methods\<close>

definition startswith :: "ustr \<Rightarrow> ustr \<Rightarrow> bool" where
  "startswith s p = (take (length p) s = p)"

text \<open>\<open>s.lstrip("/")\<close> removes every leading occurrence of the character.\<close>

definition lstrip_slash :: "ustr \<Rightarrow> ustr" where
  "lstrip_slash s = dropWhile (\<lambda>c. c = 47) s"

text \<open>\<open>p in s\<close> for two strings: \<open>p\<close> occurs in \<open>s\<close> as a contiguous run.\<close>

fun str_contains :: "ustr \<Rightarrow> ustr \<Rightarrow> bool" where
  "str_contains [] p = (p = [])"
| "str_contains (c # cs) p = (startswith (c # cs) p \<or> str_contains cs p)"

text \<open>
  The line boundaries of \<open>str.splitlines\<close>: LF, VT, FF, CR, FS, GS, RS, NEL,
  LINE SEPARATOR and PARAGRAPH SEPARATOR; CR LF counts as one boundary. Space
  and TAB are not among them.
\<close>

definition is_linebreak :: "nat \<Rightarrow> bool" where
  "is_linebreak c = (c \<in> {10, 11, 12, 13, 28, 29, 30, 133, 8232, 8233})"

fun splitlines_from :: "ustr \<Rightarrow> ustr \<Rightarrow> ustr list" where
  "splitlines_from cur [] = (if cur = [] then [] else [cur])"
| "splitlines_from cur [c] =
     (if is_linebreak c then [cur] else [cur @ [c]])"
| "splitlines_from cur (c # d # cs) =
     (if c = 13 \<and> d = 10 then cur # splitlines_from [] cs
      else if is_linebreak c then cur # splitlines_from [] (d # cs)
      else splitlines_from (cur @ [c]) (d # cs))"

definition splitlines :: "ustr \<Rightarrow> ustr list" where
  "splitlines s = splitlines_from [] s"

subsection \<open>Numbers as text\<close>

definition digit_char :: "nat \<Rightarrow> nat" where
  "digit_char d = (if d < 10 then 48 + d else 87 + d)"

fun show_nat :: "nat \<Rightarrow> ustr" where
  "show_nat n = (if n < 10 then [digit_char n] else show_nat (n div 10) @ [digit_char (n mod 10)])"

definition show_int :: "int \<Rightarrow> ustr" where
  "show_int i = (if i < 0 then 45 # show_nat (nat (- i)) else show_nat (nat i))"

text \<open>Lower-case hexadecimal, padded with zeros to \<open>w\<close> digits (\<open>'{:04x}'\<close>, \<open>\xhh\<close>).\<close>

fun hex_digits :: "nat \<Rightarrow> nat \<Rightarrow> ustr" where
  "hex_digits 0 n = []"
| "hex_digits (Suc w) n = hex_digits w (n div 16) @ [digit_char (n mod 16)]"

declare show_nat.simps [simp del]

subsection \<open>\<open>repr\<close> and \<open>str\<close>\<close>

text \<open>\<open>sep.join(xs)\<close>.\<close>

fun join :: "ustr \<Rightarrow> ustr list \<Rightarrow> ustr" where
  "join sep [] = []"
| "join sep [x] = x"
| "join sep (x # y # ys) = x @ sep @ join sep (y # ys)"

text \<open>
  \<open>repr\<close> of a \<open>bytes\<close> object, which is what an f-string writes for one: the
  quote is \<open>'\<close> unless the bytes hold a \<open>'\<close> and no \<open>"\<close>; the quote and the backslash
  are escaped, TAB, LF and CR are written \<open>\t\<close>, \<open>\n\<close>, \<open>\r\<close>, every other byte
  outside the printable ASCII range is written \<open>\xhh\<close>.
\<close>

definition repr_quote :: "nat list \<Rightarrow> nat" where
  "repr_quote s = (if 39 \<in> set s \<and> 34 \<notin> set s then 34 else 39)"

definition bytes_repr_char :: "nat \<Rightarrow> nat \<Rightarrow> ustr" where
  "bytes_repr_char q c =
     (if c = q \<or> c = 92 then [92, c]
      else if c = 9 then [92, 116]
      else if c = 10 then [92, 110]
      else if c = 13 then [92, 114]
      else if c < 32 \<or> c \<ge> 127 then [92, 120] @ hex_digits 2 c
      else [c])"

definition bytes_repr :: "bytes \<Rightarrow> ustr" where
  "bytes_repr b =
     (let q = repr_quote b in [98, q] @ concat (map (bytes_repr_char q) b) @ [q])"

text \<open>
  \<open>repr\<close> of a \<open>str\<close>. Above ASCII a code point is copied when it is printable and
  escaped otherwise; which code points are printable is the interpreter's
  Unicode table, the parameter \<open>pr\<close>.
\<close>

definition str_repr_char :: "(nat \<Rightarrow> bool) \<Rightarrow> nat \<Rightarrow> nat \<Rightarrow> ustr" where
  "str_repr_char pr q c =
     (if c = q \<or> c = 92 then [92, c]
      else if c = 9 then [92, 116]
      else if c = 10 then [92, 110]
      else if c = 13 then [92, 114]
      else if c < 32 \<or> c = 127 then [92, 120] @ hex_digits 2 c
      else if c < 127 then [c]
      else if pr c then [c]
      else if c \<le> 255 then [92, 120] @ hex_digits 2 c
      else if c \<le> 65535 then [92, 117] @ hex_digits 4 c
      else [92, 85] @ hex_digits 8 c)"

definition str_repr :: "(nat \<Rightarrow> bool) \<Rightarrow> ustr \<Rightarrow> ustr" where
  "str_repr pr s =
     (let q = repr_quote s in [q] @ concat (map (str_repr_char pr q) s) @ [q])"

fun py_repr :: "(nat \<Rightarrow> bool) \<Rightarrow> json \<Rightarrow> ustr" where
  "py_repr pr JNull = ascii ''None''"
| "py_repr pr (JBool b) = (if b then ascii ''True'' else ascii ''False'')"
| "py_repr pr (JInt i) = show_int i"
| "py_repr pr (JFloat r) = r"
| "py_repr pr (JStr s) = str_repr pr s"
| "py_repr pr (JArr xs) = ascii ''['' @ join (ascii '', '') (map (py_repr pr) xs) @ ascii '']''"
| "py_repr pr (JObj kvs) =
     ascii ''{'' @
     join (ascii '', '') (map (\<lambda>kv. str_repr pr (fst kv) @ ascii '': '' @ py_repr pr (snd kv)) kvs) @
     ascii ''}''"

text \<open>\<open>str(v)\<close>, the conversion of an f-string field: a string is itself.\<close>

definition py_str :: "(nat \<Rightarrow> bool) \<Rightarrow> json \<Rightarrow> ustr" where
  "py_str pr v = (case v of JStr s \<Rightarrow> s | _ \<Rightarrow> py_repr pr v)"

subsection \<open>\<open>json.dumps\<close>\<close>

text \<open>
  With the default settings: separators \<open>", "\<close> and \<open>": "\<close>, \<open>ensure_ascii\<close> on
  (everything outside \<open>' '\<close> .. \<open>'~'\<close> is escaped, code points above the basic plane
  as a surrogate pair), \<open>allow_nan\<close> on.
\<close>

definition json_escape_char :: "nat \<Rightarrow> ustr" where
  "json_escape_char c =
     (if c = 34 then [92, 34]
      else if c = 92 then [92, 92]
      else if c = 10 then [92, 110]
      else if c = 13 then [92, 114]
      else if c = 9 then [92, 116]
      else if c = 8 then [92, 98]
      else if c = 12 then [92, 102]
      else if 32 \<le> c \<and> c \<le> 126 then [c]
      else if c < 65536 then [92, 117] @ hex_digits 4 c
      else [92, 117] @ hex_digits 4 (55296 + ((c - 65536) div 1024) mod 1024) @
           [92, 117] @ hex_digits 4 (56320 + (c - 65536) mod 1024))"

definition json_quote :: "ustr \<Rightarrow> ustr" where
  "json_quote s = [34] @ concat (map json_escape_char s) @ [34]"

definition json_float :: "ustr \<Rightarrow> ustr" where
  "json_float r =
     (if r = ascii ''nan'' then ascii ''NaN''
      else if r = ascii ''inf'' then ascii ''Infinity''
      else if r = ascii ''-inf'' then ascii ''-Infinity''
      else r)"

fun json_dumps :: "json \<Rightarrow> ustr" where
  "json_dumps JNull = ascii ''null''"
| "json_dumps (JBool b) = (if b then ascii ''true'' else ascii ''false'')"
| "json_dumps (JInt i) = show_int i"
| "json_dumps (JFloat r) = json_float r"
| "json_dumps (JStr s) = json_quote s"
| "json_dumps (JArr xs) = ascii ''['' @ join (ascii '', '') (map json_dumps xs) @ ascii '']''"
| "json_dumps (JObj kvs) =
     ascii ''{'' @
     join (ascii '', '') (map (\<lambda>kv. json_quote (fst kv) @ ascii '': '' @ json_dumps (snd kv)) kvs) @
     ascii ''}''"

subsection \<open>Operations on parsed values\<close>

text \<open>Sequencing of steps that may raise: the first exception ends the computation.\<close>

fun bind_exn :: "py_exn + 'a \<Rightarrow> ('a \<Rightarrow> py_exn + 'b) \<Rightarrow> py_exn + 'b" where
  "bind_exn (Inl x) f = Inl x"
| "bind_exn (Inr a) f = f a"

text \<open>\<open>v.get(k, d)\<close>: only a \<open>dict\<close> has the method.\<close>

fun dict_get :: "json \<Rightarrow> ustr \<Rightarrow> json \<Rightarrow> py_exn + json" where
  "dict_get (JObj kvs) k d = Inr (case map_of kvs k of None \<Rightarrow> d | Some v \<Rightarrow> v)"
| "dict_get _ k d = Inl AttributeError"

text \<open>
  \<open>k in v\<close> for a string \<open>k\<close>: a key of a \<open>dict\<close>, an element of a \<open>list\<close>, a
  substring of a \<open>str\<close>; the other values are not containers.
\<close>

fun py_in :: "ustr \<Rightarrow> json \<Rightarrow> py_exn + bool" where
  "py_in k (JObj kvs) = Inr (k \<in> fst ` set kvs)"
| "py_in k (JArr xs) = Inr (JStr k \<in> set xs)"
| "py_in k (JStr s) = Inr (str_contains s k)"
| "py_in k _ = Inl TypeError"

text \<open>\<open>v[k]\<close> for a string \<open>k\<close>: a \<open>list\<close> or \<open>str\<close> wants an integer index.\<close>

fun py_getitem :: "json \<Rightarrow> ustr \<Rightarrow> py_exn + json" where
  "py_getitem (JObj kvs) k = (case map_of kvs k of None \<Rightarrow> Inl KeyError | Some v \<Rightarrow> Inr v)"
| "py_getitem _ k = Inl TypeError"

text \<open>
  \<open>for e in v\<close>: the elements of a \<open>list\<close>, the keys of a \<open>dict\<close>, the characters of
  a \<open>str\<close>.
\<close>

fun py_iter :: "json \<Rightarrow> py_exn + json list" where
  "py_iter (JArr xs) = Inr xs"
| "py_iter (JObj kvs) = Inr (map (\<lambda>kv. JStr (fst kv)) kvs)"
| "py_iter (JStr s) = Inr (map (\<lambda>c. JStr [c]) s)"
| "py_iter _ = Inl TypeError"

text \<open>\<open>[e for e in xs if f(e)]\<close> and \<open>for e in xs: out.append(f(e))\<close>.\<close>

fun filter_exn :: "(json \<Rightarrow> py_exn + bool) \<Rightarrow> json list \<Rightarrow> py_exn + json list" where
  "filter_exn f [] = Inr []"
| "filter_exn f (x # xs) =
     bind_exn (f x) (\<lambda>keep. bind_exn (filter_exn f xs) (\<lambda>ys. Inr (if keep then x # ys else ys)))"

fun map_exn :: "(json \<Rightarrow> py_exn + json) \<Rightarrow> json list \<Rightarrow> py_exn + json list" where
  "map_exn f [] = Inr []"
| "map_exn f (x # xs) =
     bind_exn (f x) (\<lambda>y. bind_exn (map_exn f xs) (\<lambda>ys. Inr (y # ys)))"

section \<open>The command executor\<close>

text \<open>
  \<open>subprocess.run\<close> starts a process and returns its exit status and, with
  \<open>capture_output\<close>, what it wrote, as bytes. The environment of a call holds the
  exit status of \<open>gh auth status\<close>, the answer of \<open>gh api\<close> to each argument
  vector, the result of \<open>json.loads\<close> on each byte string (a value whose \<open>dict\<close>s
  have distinct keys, or the exception raised), the interpreter's table of
  printable code points, and the processes started so far. A process that
  cannot be started at all (no \<open>gh\<close> binary, an argument the system rejects)
  is outside the model: the executor answers every vector of strings.
\<close>

record completed_process =
  returncode :: int
  stdout :: bytes
  stderr :: bytes

datatype invocation = GhAuthStatus | GhApi "ustr list"

record env =
  gh_auth_status :: int
  gh_api :: "ustr list \<Rightarrow> completed_process"
  json_loads :: "bytes \<Rightarrow> py_exn + json"
  isprintable :: "nat \<Rightarrow> bool"
  invocations :: "invocation list"

text \<open>An argument vector must consist of strings; \<open>subprocess\<close> raises \<open>TypeError\<close> otherwise.\<close>

fun str_args :: "json list \<Rightarrow> ustr list option" where
  "str_args [] = Some []"
| "str_args (JStr s # xs) = map_option ((#) s) (str_args xs)"
| "str_args (_ # xs) = None"

definition run_gh_api_command :: "json list \<Rightarrow> bool \<Rightarrow> env \<Rightarrow> (py_exn + completed_process) \<times> env" where
  "run_gh_api_command args check e =
     (case str_args args of
        None \<Rightarrow> (Inl TypeError, e)
      | Some argv \<Rightarrow>
          (let p = gh_api e argv;
               e' = e\<lparr>invocations := invocations e @ [GhApi argv]\<rparr>
           in if check \<and> returncode p \<noteq> 0 then (Inl (CalledProcessError (stderr p)), e')
              else (Inr p, e')))"

definition gh_command_exists :: "env \<Rightarrow> bool \<times> env" where
  "gh_command_exists e =
     (case run_gh_api_command [JStr (ascii ''--version'')] False e of
        (Inl x, e') \<Rightarrow> (False, e')
      | (Inr p, e') \<Rightarrow> (returncode p = 0, e'))"

definition is_authenticated :: "env \<Rightarrow> bool \<times> env" where
  "is_authenticated e =
     (gh_auth_status e = 0, e\<lparr>invocations := invocations e @ [GhAuthStatus]\<rparr>)"

section \<open>The authentication gate\<close>

definition require_auth :: "(env \<Rightarrow> (py_exn + ustr) \<times> env) \<Rightarrow> env \<Rightarrow> (py_exn + ustr) \<times> env" where
  "require_auth fn e =
     (case is_authenticated e of
        (ok, e1) \<Rightarrow>
          if \<not> ok then (Inr (ascii ''Error: User is not authenticated''), e1)
          else fn e1)"

section \<open>The default branch resolver\<close>

text \<open>
  The first \<open>try\<close> catches \<open>CalledProcessError\<close> only, the second every
  exception; \<open>None\<close> is \<open>JNull\<close>.
\<close>

definition get_default_branch :: "ustr \<Rightarrow> ustr \<Rightarrow> env \<Rightarrow> (py_exn + json) \<times> env" where
  "get_default_branch owner repo e =
     (case run_gh_api_command [JStr (ascii ''repos/'' @ owner @ ascii ''/'' @ repo)] True e of
        (Inl (CalledProcessError err), e1) \<Rightarrow> (Inr JNull, e1)
      | (Inl x, e1) \<Rightarrow> (Inl x, e1)
      | (Inr result, e1) \<Rightarrow>
          (case bind_exn (json_loads e1 (stdout result))
                  (\<lambda>repo_data. dict_get repo_data (ascii ''default_branch'') JNull) of
             Inl x \<Rightarrow> (Inr JNull, e1)
           | Inr v \<Rightarrow> (Inr v, e1)))"

section \<open>The tree lister\<close>

text \<open>Lines 85 to 87: the path filter, applied when \<open>path\<close> is a non-empty string.\<close>

definition path_matches :: "ustr \<Rightarrow> json \<Rightarrow> py_exn + bool" where
  "path_matches prefix e =
     bind_exn (dict_get e (ascii ''path'') (JStr []))
       (\<lambda>p. case p of JStr s \<Rightarrow> Inr (startswith s prefix) | _ \<Rightarrow> Inl AttributeError)"

definition filter_by_path :: "ustr option \<Rightarrow> json \<Rightarrow> py_exn + json" where
  "filter_by_path path entries =
     (if opt_truthy path then
        bind_exn (py_iter entries)
          (\<lambda>es. bind_exn (filter_exn (path_matches (lstrip_slash (the path))) es)
             (\<lambda>kept. Inr (JArr kept)))
      else Inr entries)"

text \<open>Lines 89 to 92: the kind filter; there is no \<open>else\<close> branch.\<close>

definition type_is :: "ustr \<Rightarrow> json \<Rightarrow> py_exn + bool" where
  "type_is t e = bind_exn (dict_get e (ascii ''type'') JNull) (\<lambda>v. Inr (v = JStr t))"

definition filter_by_kind :: "ustr \<Rightarrow> json \<Rightarrow> py_exn + json" where
  "filter_by_kind include entries =
     (if include = ascii ''files'' then
        bind_exn (py_iter entries)
          (\<lambda>es. bind_exn (filter_exn (type_is (ascii ''blob'')) es) (\<lambda>kept. Inr (JArr kept)))
      else if include = ascii ''dirs'' then
        bind_exn (py_iter entries)
          (\<lambda>es. bind_exn (filter_exn (type_is (ascii ''tree'')) es) (\<lambda>kept. Inr (JArr kept)))
      else Inr entries)"

text \<open>Lines 94 to 110: the projection.\<close>

definition project_entry :: "json \<Rightarrow> py_exn + json" where
  "project_entry e =
     bind_exn (type_is (ascii ''tree'') e)
       (\<lambda>is_tree.
          if is_tree then
            bind_exn (dict_get e (ascii ''path'') JNull)
              (\<lambda>p. Inr (JObj [(ascii ''path'', p), (ascii ''type'', JStr (ascii ''directory''))]))
          else
            bind_exn (dict_get e (ascii ''path'') JNull)
              (\<lambda>p. bind_exn (dict_get e (ascii ''size'') JNull)
                 (\<lambda>sz. Inr (JObj [(ascii ''path'', p), (ascii ''type'', JStr (ascii ''file'')),
                                  (ascii ''bytes'', sz)]))))"

definition project_entries :: "json \<Rightarrow> py_exn + json list" where
  "project_entries entries = bind_exn (py_iter entries) (map_exn project_entry)"

text \<open>Lines 80 to 117: everything after the response has been parsed.\<close>

definition tree_result :: "json \<Rightarrow> json list \<Rightarrow> json" where
  "tree_result resolved_ref mapped =
     JObj [(ascii ''ref'', resolved_ref),
           (ascii ''count'', JInt (int (length mapped))),
           (ascii ''entries'', JArr mapped)]"

definition render_tree :: "json \<Rightarrow> ustr option \<Rightarrow> ustr \<Rightarrow> json \<Rightarrow> py_exn + ustr" where
  "render_tree resolved_ref path include data =
     bind_exn (py_in (ascii ''tree'') data)
       (\<lambda>has_tree.
          if \<not> has_tree then
            Inr (json_dumps (JObj [(ascii ''error'', JStr (ascii ''No tree in response'')),
                                   (ascii ''raw'', data)]))
          else
            bind_exn (py_getitem data (ascii ''tree''))
              (\<lambda>entries. bind_exn (filter_by_path path entries)
                 (\<lambda>entries1. bind_exn (filter_by_kind include entries1)
                    (\<lambda>entries2. bind_exn (project_entries entries2)
                       (\<lambda>mapped. Inr (json_dumps (tree_result resolved_ref mapped)))))))"

text \<open>Lines 62 to 64: \<open>ref\<close> when it is a non-empty string, else the default branch or \<open>"main"\<close>.\<close>

definition resolve_ref :: "ustr \<Rightarrow> ustr \<Rightarrow> ustr option \<Rightarrow> env \<Rightarrow> (py_exn + json) \<times> env" where
  "resolve_ref owner repo ref e =
     (if opt_truthy ref then (Inr (JStr (the ref)), e)
      else
        (case get_default_branch owner repo e of
           (Inl x, e1) \<Rightarrow> (Inl x, e1)
         | (Inr b, e1) \<Rightarrow> (Inr (if truthy b then b else JStr (ascii ''main'')), e1)))"

definition tree_args :: "env \<Rightarrow> ustr \<Rightarrow> ustr \<Rightarrow> json \<Rightarrow> json list" where
  "tree_args e owner repo resolved_ref =
     [JStr (ascii ''repos/'' @ owner @ ascii ''/'' @ repo @ ascii ''/git/trees/'' @
            py_str (isprintable e) resolved_ref),
      JStr (ascii ''--method''), JStr (ascii ''GET''),
      JStr (ascii ''-F''), JStr (ascii ''recursive=1'')]"

definition list_tree_body ::
  "ustr \<Rightarrow> ustr \<Rightarrow> ustr option \<Rightarrow> ustr option \<Rightarrow> ustr \<Rightarrow> env \<Rightarrow> (py_exn + ustr) \<times> env" where
  "list_tree_body owner repo ref path include e =
     (case resolve_ref owner repo ref e of
        (Inl x, e1) \<Rightarrow> (Inl x, e1)
      | (Inr resolved_ref, e1) \<Rightarrow>
          (case run_gh_api_command (tree_args e1 owner repo resolved_ref) True e1 of
             (Inl (CalledProcessError err), e2) \<Rightarrow>
               (Inr (ascii ''Error running gh command: '' @ bytes_repr err), e2)
           | (Inl x, e2) \<Rightarrow> (Inl x, e2)
           | (Inr result, e2) \<Rightarrow>
               (case json_loads e2 (stdout result) of
                  Inl (JSONDecodeError msg) \<Rightarrow> (Inr (ascii ''Error decoding JSON: '' @ msg), e2)
                | Inl x \<Rightarrow> (Inl x, e2)
                | Inr data \<Rightarrow> (render_tree resolved_ref path include data, e2))))"

definition list_tree ::
  "ustr \<Rightarrow> ustr \<Rightarrow> ustr option \<Rightarrow> ustr option \<Rightarrow> ustr \<Rightarrow> env \<Rightarrow> (py_exn + ustr) \<times> env" where
  "list_tree owner repo ref path include = require_auth (list_tree_body owner repo ref path include)"

section \<open>The file reader\<close>

subsection \<open>\<open>base64.b64decode\<close>\<close>

text \<open>
  \<open>b64decode(s, validate=v)\<close> encodes a \<open>str\<close> argument as ASCII, raising
  \<open>ValueError\<close> when a code point is above 127, and calls
  \<open>binascii.a2b_base64(s, strict_mode=v)\<close>. That function reads the input once,
  keeping the position in the current group of four (\<open>quad_pos\<close>), the bits left
  over (\<open>leftchar\<close>), the padding characters counted in the current group (\<open>pads\<close>) and
  whether a padding character has been seen. Outside strict mode a byte that
  is not in the alphabet is skipped. The loop is the one of CPython 3.11 to
  3.13; the 64 entries of its table are written as ranges.
\<close>

definition table_a2b_base64 :: "nat \<Rightarrow> nat" where
  "table_a2b_base64 c =
     (if 65 \<le> c \<and> c \<le> 90 then c - 65
      else if 97 \<le> c \<and> c \<le> 122 then c - 71
      else if 48 \<le> c \<and> c \<le> 57 then c + 4
      else if c = 43 then 62
      else if c = 47 then 63
      else 64)"

definition odd_length_message :: "nat \<Rightarrow> ustr" where
  "odd_length_message n =
     ascii ''Invalid base64-encoded string: number of data characters ('' @ show_nat n @
     ascii '') cannot be 1 more than a multiple of 4''"

fun a2b_loop :: "bool \<Rightarrow> nat \<Rightarrow> nat \<Rightarrow> nat \<Rightarrow> bool \<Rightarrow> bytes \<Rightarrow> bytes \<Rightarrow> py_exn + bytes" where
  "a2b_loop strict quad_pos leftchar pads padding_started out [] =
     (if quad_pos \<noteq> 0 then
        (if quad_pos = 1 then Inl (BinasciiError (odd_length_message (length out div 3 * 4 + 1)))
         else Inl (BinasciiError (ascii ''Incorrect padding'')))
      else Inr out)"
| "a2b_loop strict quad_pos leftchar pads padding_started out (c # cs) =
     (if c = 61 then
        (if quad_pos \<ge> 2 \<and> quad_pos + (pads + 1) \<ge> 4 then
           (if strict \<and> cs \<noteq> [] then Inl (BinasciiError (ascii ''Excess data after padding''))
            else Inr out)
         else a2b_loop strict quad_pos leftchar (if quad_pos \<ge> 2 then pads + 1 else pads) True out cs)
      else
        (let this_ch = table_a2b_base64 c in
         if this_ch \<ge> 64 then
           (if strict then Inl (BinasciiError (ascii ''Only base64 data is allowed''))
            else a2b_loop strict quad_pos leftchar pads padding_started out cs)
         else if strict \<and> padding_started then
           Inl (BinasciiError (ascii ''Discontinuous padding not allowed''))
         else if quad_pos = 0 then
           a2b_loop strict 1 this_ch 0 padding_started out cs
         else if quad_pos = 1 then
           a2b_loop strict 2 (and this_ch 15) 0 padding_started
             (out @ [(or (push_bit 2 leftchar) (drop_bit 4 this_ch)) mod 256]) cs
         else if quad_pos = 2 then
           a2b_loop strict 3 (and this_ch 3) 0 padding_started
             (out @ [(or (push_bit 4 leftchar) (drop_bit 2 this_ch)) mod 256]) cs
         else
           a2b_loop strict 0 0 0 padding_started
             (out @ [(or (push_bit 6 leftchar) this_ch) mod 256]) cs))"

definition a2b_base64 :: "bytes \<Rightarrow> bool \<Rightarrow> py_exn + bytes" where
  "a2b_base64 ascii_data strict =
     (if strict \<and> ascii_data \<noteq> [] \<and> hd ascii_data = 61 then
        Inl (BinasciiError (ascii ''Leading padding not allowed''))
      else a2b_loop strict 0 0 0 False [] ascii_data)"

definition b64decode :: "ustr \<Rightarrow> bool \<Rightarrow> py_exn + bytes" where
  "b64decode s validate =
     (if \<exists>c \<in> set s. c \<ge> 128 then
        Inl (ValueError (ascii ''string argument should contain only ASCII characters''))
      else a2b_base64 s validate)"

subsection \<open>\<open>bytes.decode("utf-8", errors="replace")\<close>\<close>

text \<open>
  A well-formed sequence gives its code point. An ill-formed one gives U+FFFD
  for the bytes that were accepted before the offending byte (at least the
  first), and decoding goes on at the offending byte; a sequence cut short by
  the end of the input gives one U+FFFD.
\<close>

definition is_continuation :: "nat \<Rightarrow> bool" where
  "is_continuation b = (128 \<le> b \<and> b < 192)"

fun utf8_decode_replace :: "bytes \<Rightarrow> ustr" where
  "utf8_decode_replace [] = []"
| "utf8_decode_replace (ch # s) =
     (if ch < 128 then ch # utf8_decode_replace s
      else if ch < 194 then 65533 # utf8_decode_replace s
      else if ch < 224 then
        (case s of
           [] \<Rightarrow> [65533]
         | ch2 # s2 \<Rightarrow>
             if \<not> is_continuation ch2 then 65533 # utf8_decode_replace s
             else (ch * 64 + ch2 - 12416) # utf8_decode_replace s2)
      else if ch < 240 then
        (case s of
           [] \<Rightarrow> [65533]
         | ch2 # s2 \<Rightarrow>
             if \<not> is_continuation ch2 \<or> (if ch2 < 160 then ch = 224 else ch = 237)
             then 65533 # utf8_decode_replace s
             else
               (case s2 of
                  [] \<Rightarrow> [65533]
                | ch3 # s3 \<Rightarrow>
                    if \<not> is_continuation ch3 then 65533 # utf8_decode_replace s2
                    else (ch * 4096 + ch2 * 64 + ch3 - 925824) # utf8_decode_replace s3))
      else if ch < 245 then
        (case s of
           [] \<Rightarrow> [65533]
         | ch2 # s2 \<Rightarrow>
             if \<not> is_continuation ch2 \<or> (if ch2 < 144 then ch = 240 else ch = 244)
             then 65533 # utf8_decode_replace s
             else
               (case s2 of
                  [] \<Rightarrow> [65533]
                | ch3 # s3 \<Rightarrow>
                    if \<not> is_continuation ch3 then 65533 # utf8_decode_replace s2
                    else
                      (case s3 of
                         [] \<Rightarrow> [65533]
                       | ch4 # s4 \<Rightarrow>
                           if \<not> is_continuation ch4 then 65533 # utf8_decode_replace s3
                           else (ch * 262144 + ch2 * 4096 + ch3 * 64 + ch4 - 63447168)
                                # utf8_decode_replace s4)))
      else 65533 # utf8_decode_replace s)"

subsection \<open>\<open>read_file\<close>\<close>

text \<open>\<open>v.splitlines()\<close>: only a \<open>str\<close> has the method.\<close>

fun py_splitlines :: "json \<Rightarrow> py_exn + ustr list" where
  "py_splitlines (JStr s) = Inr (splitlines s)"
| "py_splitlines _ = Inl AttributeError"

text \<open>
  The text of an exception, as an f-string writes it: its message. The
  exceptions without a message here are never written.
\<close>

definition exn_text :: "py_exn \<Rightarrow> ustr" where
  "exn_text x =
     (case x of
        BinasciiError m \<Rightarrow> m
      | ValueError m \<Rightarrow> m
      | JSONDecodeError m \<Rightarrow> m
      | OtherError m \<Rightarrow> m
      | _ \<Rightarrow> [])"

text \<open>
  Lines 193 to 205: the content is joined from its lines, decoded strictly and,
  when that raises \<open>binascii.Error\<close>, decoded again leniently. Any other exception
  of the strict attempt is not caught.
\<close>

definition decode_content :: "json \<Rightarrow> py_exn + ustr" where
  "decode_content content_b64 =
     bind_exn (py_splitlines content_b64)
       (\<lambda>lines.
          let normalized_b64 = join [] lines in
          case b64decode normalized_b64 True of
            Inr decoded_bytes \<Rightarrow> Inr (utf8_decode_replace decoded_bytes)
          | Inl (BinasciiError m) \<Rightarrow>
              (case b64decode normalized_b64 False of
                 Inr decoded_bytes \<Rightarrow> Inr (utf8_decode_replace decoded_bytes)
               | Inl x \<Rightarrow> Inr (ascii ''Error decoding base64: '' @ exn_text x))
          | Inl x \<Rightarrow> Inl x)"

definition raw_header :: "json list" where
  "raw_header = [JStr (ascii ''-H''), JStr (ascii ''Accept: application/vnd.github.raw'')]"

definition no_content_error :: ustr where
  "no_content_error =
     ascii ''Error: No '' @ [39] @ ascii ''content'' @ [39] @ ascii '' key found in response''"

text \<open>
  Lines 169 to 207, after the response has been parsed. The handler of the
  enclosing \<open>try\<close> is for \<open>binascii.Error\<close>, which nothing inside lets through;
  \<open>stdout\<close> is always \<open>bytes\<close>, so the \<open>isinstance\<close> test holds.
\<close>

definition read_content :: "json \<Rightarrow> env \<Rightarrow> (py_exn + ustr) \<times> env" where
  "read_content data e =
     (case dict_get data (ascii ''content'') JNull of
        Inl x \<Rightarrow> (Inl x, e)
      | Inr content_b64 \<Rightarrow>
          if content_b64 = JNull then
            (case dict_get data (ascii ''download_url'') JNull of
               Inl x \<Rightarrow> (Inl x, e)
             | Inr download_url \<Rightarrow>
                 if truthy download_url then
                   (case run_gh_api_command (raw_header @ [download_url]) True e of
                      (Inl (CalledProcessError err), e1) \<Rightarrow>
                        (Inr (ascii ''Error fetching raw content: '' @ bytes_repr err), e1)
                    | (Inl x, e1) \<Rightarrow> (Inl x, e1)
                    | (Inr raw_result, e1) \<Rightarrow> (Inr (utf8_decode_replace (stdout raw_result)), e1))
                 else (Inr no_content_error, e))
          else
            (case dict_get data (ascii ''encoding'') JNull of
               Inl x \<Rightarrow> (Inl x, e)
             | Inr encoding \<Rightarrow>
                 if encoding \<noteq> JNull \<and> encoding \<noteq> JStr (ascii ''base64'') then
                   (Inr (ascii ''Error: Unexpected encoding '' @ [39] @
                         py_str (isprintable e) encoding @ [39]), e)
                 else (decode_content content_b64, e)))"

definition contents_path :: "ustr \<Rightarrow> ustr \<Rightarrow> ustr \<Rightarrow> ustr option \<Rightarrow> ustr" where
  "contents_path owner repo path ref =
     (let path1 = (if startswith path (ascii ''/'') then path else ascii ''/'' @ path);
          api_path = ascii ''repos/'' @ owner @ ascii ''/'' @ repo @ ascii ''/contents/'' @ path1
      in if opt_truthy ref then api_path @ ascii ''?ref='' @ the ref else api_path)"

definition read_file_body ::
  "ustr \<Rightarrow> ustr \<Rightarrow> ustr \<Rightarrow> ustr option \<Rightarrow> bool \<Rightarrow> env \<Rightarrow> (py_exn + ustr) \<times> env" where
  "read_file_body owner repo path ref raw e =
     (if raw then
        (case run_gh_api_command (raw_header @ [JStr (contents_path owner repo path ref)]) True e of
           (Inl (CalledProcessError err), e1) \<Rightarrow>
             (Inr (ascii ''Error running gh command: '' @ bytes_repr err), e1)
         | (Inl x, e1) \<Rightarrow> (Inl x, e1)
         | (Inr result, e1) \<Rightarrow> (Inr (utf8_decode_replace (stdout result)), e1))
      else
        (case run_gh_api_command [JStr (contents_path owner repo path ref)] True e of
           (Inl (CalledProcessError err), e1) \<Rightarrow>
             (Inr (ascii ''Error running gh command: '' @ bytes_repr err), e1)
         | (Inl x, e1) \<Rightarrow> (Inl x, e1)
         | (Inr result, e1) \<Rightarrow>
             (case json_loads e1 (stdout result) of
                Inl (JSONDecodeError msg) \<Rightarrow> (Inr (ascii ''Error decoding JSON: '' @ msg), e1)
              | Inl x \<Rightarrow> (Inl x, e1)
              | Inr data \<Rightarrow> read_content data e1)))"

definition read_file ::
  "ustr \<Rightarrow> ustr \<Rightarrow> ustr \<Rightarrow> ustr option \<Rightarrow> bool \<Rightarrow> env \<Rightarrow> (py_exn + ustr) \<times> env" where
  "read_file owner repo path ref raw = require_auth (read_file_body owner repo path ref raw)"

section \<open>The specification's own notions\<close>

text \<open>
  The encoder of the round trip: base64 with padding (RFC 4648), three bytes
  to four characters of the alphabet.
\<close>

definition table_b2a_base64 :: "nat \<Rightarrow> nat" where
  "table_b2a_base64 v =
     (if v < 26 then 65 + v
      else if v < 52 then 71 + v
      else if v < 62 then v - 4
      else if v = 62 then 43
      else 47)"

fun b64encode :: "bytes \<Rightarrow> ustr" where
  "b64encode [] = []"
| "b64encode [a] =
     [table_b2a_base64 (a div 4), table_b2a_base64 ((a mod 4) * 16), 61, 61]"
| "b64encode [a, b] =
     [table_b2a_base64 (a div 4), table_b2a_base64 ((a mod 4) * 16 + b div 16),
      table_b2a_base64 ((b mod 16) * 4), 61]"
| "b64encode (a # b # c # rest) =
     [table_b2a_base64 (a div 4), table_b2a_base64 ((a mod 4) * 16 + b div 16),
      table_b2a_base64 ((b mod 16) * 4 + c div 64), table_b2a_base64 (c mod 64)]
     @ b64encode rest"

text \<open>
  Valid UTF-8 is the encoding of a text whose code points are Unicode scalar
  values: below U+110000 and not surrogates.
\<close>

definition is_scalar_value :: "nat \<Rightarrow> bool" where
  "is_scalar_value c = (c < 55296 \<or> (57344 \<le> c \<and> c < 1114112))"

definition utf8_encode_char :: "nat \<Rightarrow> bytes" where
  "utf8_encode_char c =
     (if c < 128 then [c]
      else if c < 2048 then [192 + c div 64, 128 + c mod 64]
      else if c < 65536 then [224 + c div 4096, 128 + (c div 64) mod 64, 128 + c mod 64]
      else [240 + c div 262144, 128 + (c div 4096) mod 64, 128 + (c div 64) mod 64,
            128 + c mod 64])"

definition utf8_encode :: "ustr \<Rightarrow> bytes" where
  "utf8_encode s = concat (map utf8_encode_char s)"

text \<open>
  The specification's path filter strips a single leading \<open>"/"\<close>, and its entries
  are \<open>{path, kind: "directory"}\<close> and \<open>{path, kind: "file", size_bytes}\<close>.
\<close>

definition spec_strip_single_slash :: "ustr \<Rightarrow> ustr" where
  "spec_strip_single_slash p = (case p of [] \<Rightarrow> [] | c # cs \<Rightarrow> if c = 47 then cs else p)"

definition spec_directory_entry :: "json \<Rightarrow> json" where
  "spec_directory_entry p = JObj [(ascii ''path'', p), (ascii ''kind'', JStr (ascii ''directory''))]"

definition spec_file_entry :: "json \<Rightarrow> json \<Rightarrow> json" where
  "spec_file_entry p sz =
     JObj [(ascii ''path'', p), (ascii ''kind'', JStr (ascii ''file'')), (ascii ''size_bytes'', sz)]"

definition spec_tree_result :: "json \<Rightarrow> json list \<Rightarrow> json" where
  "spec_tree_result r es =
     JObj [(ascii ''ref'', r), (ascii ''count'', JInt (int (length es))), (ascii ''entries'', JArr es)]"

text \<open>
  The specification's error string of a failed fetch embeds the captured
  standard-error text: the operation returns a string in which the text of the
  captured bytes occurs.
\<close>

definition spec_embeds_stderr_text :: "bytes \<Rightarrow> py_exn + ustr \<Rightarrow> bool" where
  "spec_embeds_stderr_text err r =
     (case r of Inl _ \<Rightarrow> False | Inr s \<Rightarrow> str_contains s (utf8_decode_replace err))"

section \<open>A substitute executor for concrete runs\<close>

text \<open>
  A table of argument vectors and what the process answers to each; any other
  argument vector fails with exit status 1. \<open>says v\<close> is a process that writes
  the serialization of the value \<open>v\<close> and exits with 0. \<open>json.loads\<close> reads the
  listed values back from their serializations and fails on every other byte
  string.
\<close>

definition not_found :: completed_process where
  "not_found = \<lparr>returncode = 1, stdout = [], stderr = ascii ''gh: Not Found (HTTP 404)''\<rparr>"

definition writes :: "bytes \<Rightarrow> completed_process" where
  "writes out = \<lparr>returncode = 0, stdout = out, stderr = []\<rparr>"

definition says :: "json \<Rightarrow> completed_process" where
  "says v = writes (json_dumps v)"

definition answers :: "(ustr list \<times> completed_process) list \<Rightarrow> ustr list \<Rightarrow> completed_process" where
  "answers tab argv = (case map_of tab argv of None \<Rightarrow> not_found | Some p \<Rightarrow> p)"

definition loads_of :: "json list \<Rightarrow> bytes \<Rightarrow> py_exn + json" where
  "loads_of vs b =
     (case find (\<lambda>v. json_dumps v = b) vs of
        None \<Rightarrow> Inl (JSONDecodeError (ascii ''Expecting value: line 1 column 1 (char 0)''))
      | Some v \<Rightarrow> Inr v)"

definition fake_env :: "int \<Rightarrow> (ustr list \<times> completed_process) list \<Rightarrow> json list \<Rightarrow> env" where
  "fake_env status tab vs =
     \<lparr>gh_auth_status = status, gh_api = answers tab, json_loads = loads_of vs,
      isprintable = (\<lambda>c. 160 < c), invocations = []\<rparr>"

text \<open>The repository \<open>acme/widgets\<close> of the specification's scenarios.\<close>

definition widgets_meta :: json where
  "widgets_meta = JObj [(ascii ''default_branch'', JStr (ascii ''main''))]"

definition lib_entry :: "(ustr \<times> json) list" where
  "lib_entry = [(ascii ''path'', JStr (ascii ''lib'')), (ascii ''type'', JStr (ascii ''tree''))]"

definition a_go_entry :: "(ustr \<times> json) list" where
  "a_go_entry =
     [(ascii ''path'', JStr (ascii ''lib/a.go'')), (ascii ''type'', JStr (ascii ''blob'')),
      (ascii ''size'', JInt 10)]"

definition widgets_tree_items :: "(ustr \<times> json) list" where
  "widgets_tree_items = [(ascii ''tree'', JArr (map JObj [lib_entry, a_go_entry]))]"

definition widgets_tree :: json where
  "widgets_tree = JObj widgets_tree_items"

definition widgets_tree_argv :: "ustr list" where
  "widgets_tree_argv =
     [ascii ''repos/acme/widgets/git/trees/main'', ascii ''--method'', ascii ''GET'',
      ascii ''-F'', ascii ''recursive=1'']"

definition widgets_env :: env where
  "widgets_env =
     fake_env 0
       [([ascii ''repos/acme/widgets''], says widgets_meta),
        (widgets_tree_argv, says widgets_tree)]
       [widgets_meta, widgets_tree]"

text \<open>The same repository when the metadata request fails.\<close>

definition widgets_env_no_meta :: env where
  "widgets_env_no_meta = fake_env 0 [(widgets_tree_argv, says widgets_tree)] [widgets_tree]"

text \<open>Answers of the contents endpoint: a file, and a directory (a JSON array).\<close>

definition readme_file :: "ustr \<Rightarrow> json" where
  "readme_file content =
     JObj [(ascii ''content'', JStr content), (ascii ''encoding'', JStr (ascii ''base64''))]"

definition readme_env :: "ustr \<Rightarrow> env" where
  "readme_env content =
     fake_env 0
       [([ascii ''repos/acme/widgets/contents//README.md''], says (readme_file content))]
       [readme_file content]"

definition lib_listing :: json where
  "lib_listing =
     JArr [JObj [(ascii ''name'', JStr (ascii ''a.go'')), (ascii ''path'', JStr (ascii ''lib/a.go'')),
                 (ascii ''type'', JStr (ascii ''file''))]]"

definition lib_env :: env where
  "lib_env =
     fake_env 0 [([ascii ''repos/acme/widgets/contents//lib''], says lib_listing)] [lib_listing]"

text \<open>A file too large for inline content: no content, a download URL.\<close>

definition big_url :: ustr where
  "big_url = ascii ''https://raw.githubusercontent.com/acme/widgets/main/big.txt''"

definition big_file :: json where
  "big_file = JObj [(ascii ''name'', JStr (ascii ''big.txt'')), (ascii ''download_url'', JStr big_url)]"

definition big_env :: env where
  "big_env =
     fake_env 0
       [([ascii ''repos/acme/widgets/contents//big.txt''], says big_file),
        ([ascii ''-H'', ascii ''Accept: application/vnd.github.raw'', big_url],
         writes (ascii ''hello''))]
       [big_file]"

text \<open>
  The same file when the download fails: \<open>gh\<close> writes its diagnostic, one line,
  to standard error and exits with 1.
\<close>

definition download_gone :: completed_process where
  "download_gone =
     \<lparr>returncode = 1, stdout = [], stderr = ascii ''gh: Not Found (HTTP 404)'' @ [10]\<rparr>"

definition big_env_gone :: env where
  "big_env_gone =
     fake_env 0
       [([ascii ''repos/acme/widgets/contents//big.txt''], says big_file),
        ([ascii ''-H'', ascii ''Accept: application/vnd.github.raw'', big_url], download_gone)]
       [big_file]"

definition submodule_file :: json where
  "submodule_file = JObj [(ascii ''name'', JStr (ascii ''vendor'')), (ascii ''download_url'', JNull)]"

definition submodule_env :: env where
  "submodule_env =
     fake_env 0 [([ascii ''repos/acme/widgets/contents//vendor''], says submodule_file)]
       [submodule_file]"

definition null_env :: env where
  "null_env = fake_env 0 [(widgets_tree_argv, says JNull)] [JNull]"

section \<open>Vocabulary of the statements\<close>

text \<open>
  The argument vectors of the two requests of \<open>list_tree\<close>, as \<open>gh api\<close> receives
  them.
\<close>

definition meta_argv :: "ustr \<Rightarrow> ustr \<Rightarrow> ustr list" where
  "meta_argv owner repo = [ascii ''repos/'' @ owner @ ascii ''/'' @ repo]"

definition tree_argv :: "env \<Rightarrow> ustr \<Rightarrow> ustr \<Rightarrow> json \<Rightarrow> ustr list" where
  "tree_argv e owner repo resolved_ref =
     [ascii ''repos/'' @ owner @ ascii ''/'' @ repo @ ascii ''/git/trees/'' @
      py_str (isprintable e) resolved_ref,
      ascii ''--method'', ascii ''GET'', ascii ''-F'', ascii ''recursive=1'']"

text \<open>
  \<open>fetched e argv data\<close>: the request \<open>argv\<close> succeeds in \<open>e\<close> and its output parses
  to \<open>data\<close>.
\<close>

definition fetched :: "env \<Rightarrow> ustr list \<Rightarrow> json \<Rightarrow> bool" where
  "fetched e argv data =
     (returncode (gh_api e argv) = 0 \<and> json_loads e (stdout (gh_api e argv)) = Inr data)"

text \<open>\<open>d.get(k)\<close> of an object given by its items: the value, or \<open>None\<close>.\<close>

definition field :: "(ustr \<times> json) list \<Rightarrow> ustr \<Rightarrow> json" where
  "field kvs k = (case map_of kvs k of None \<Rightarrow> JNull | Some v \<Rightarrow> v)"

text \<open>
  What the path filter reads from an entry: the path when it is a string, the
  empty string when there is none.
\<close>

definition path_text :: "(ustr \<times> json) list \<Rightarrow> ustr option" where
  "path_text kvs =
     (case map_of kvs (ascii ''path'') of
        None \<Rightarrow> Some []
      | Some (JStr s) \<Rightarrow> Some s
      | Some _ \<Rightarrow> None)"

definition path_kept :: "ustr option \<Rightarrow> (ustr \<times> json) list \<Rightarrow> bool" where
  "path_kept path kvs =
     (if opt_truthy path then
        (case path_text kvs of
           None \<Rightarrow> False
         | Some s \<Rightarrow> startswith s (lstrip_slash (the path)))
      else True)"

definition kind_kept :: "ustr \<Rightarrow> (ustr \<times> json) list \<Rightarrow> bool" where
  "kind_kept include kvs =
     (if include = ascii ''files'' then field kvs (ascii ''type'') = JStr (ascii ''blob'')
      else if include = ascii ''dirs'' then field kvs (ascii ''type'') = JStr (ascii ''tree'')
      else True)"

text \<open>The two shapes of a projected entry.\<close>

definition directory_entry :: "json \<Rightarrow> json" where
  "directory_entry p = JObj [(ascii ''path'', p), (ascii ''type'', JStr (ascii ''directory''))]"

definition file_entry :: "json \<Rightarrow> json \<Rightarrow> json" where
  "file_entry p sz =
     JObj [(ascii ''path'', p), (ascii ''type'', JStr (ascii ''file'')), (ascii ''bytes'', sz)]"

definition projected :: "(ustr \<times> json) list \<Rightarrow> json" where
  "projected kvs =
     (if field kvs (ascii ''type'') = JStr (ascii ''tree'')
      then directory_entry (field kvs (ascii ''path''))
      else file_entry (field kvs (ascii ''path'')) (field kvs (ascii ''size'')))"

section \<open>Evaluation\<close>

lemma show_nat_small: "n < 10 \<Longrightarrow> show_nat n = [digit_char n]"
  by (simp add: show_nat.simps)

lemma show_nat_large: "\<not> n < 10 \<Longrightarrow> show_nat n = show_nat (n div 10) @ [digit_char (n mod 10)]"
  by (subst show_nat.simps) simp

lemmas run_defs =
  list_tree_def read_file_def require_auth_def is_authenticated_def list_tree_body_def
  read_file_body_def resolve_ref_def get_default_branch_def run_gh_api_command_def
  tree_args_def contents_path_def raw_header_def py_str_def Let_def

lemmas fake_defs =
  fake_env_def answers_def says_def writes_def loads_of_def not_found_def
  widgets_env_def widgets_env_no_meta_def widgets_meta_def widgets_tree_def widgets_tree_argv_def
  widgets_tree_items_def lib_entry_def a_go_entry_def
  readme_env_def readme_file_def lib_env_def lib_listing_def big_env_def big_env_gone_def download_gone_def
  big_file_def big_url_def submodule_env_def submodule_file_def null_env_def

lemmas dumps_defs =
  json_quote_def json_escape_char_def show_int_def show_nat_small show_nat_large digit_char_def
  tree_result_def directory_entry_def file_entry_def

lemmas tree_defs =
  render_tree_def filter_by_path_def filter_by_kind_def type_is_def path_matches_def
  project_entries_def project_entry_def startswith_def lstrip_slash_def

section \<open>The executor and the resolver\<close>

lemma str_args_JStr: "str_args (map JStr argv) = Some argv"
  by (induction argv) simp_all

lemma run_gh_api_command_strs:
  "run_gh_api_command (map JStr argv) True e =
     (if returncode (gh_api e argv) \<noteq> 0 then Inl (CalledProcessError (stderr (gh_api e argv)))
      else Inr (gh_api e argv),
      e\<lparr>invocations := invocations e @ [GhApi argv]\<rparr>)"
  by (simp add: run_gh_api_command_def str_args_JStr Let_def)

lemma run_gh_api_command_raw:
  "run_gh_api_command (raw_header @ [JStr url]) True e =
     (if returncode (gh_api e [ascii ''-H'', ascii ''Accept: application/vnd.github.raw'', url]) \<noteq> 0
      then Inl (CalledProcessError
                  (stderr (gh_api e [ascii ''-H'', ascii ''Accept: application/vnd.github.raw'', url])))
      else Inr (gh_api e [ascii ''-H'', ascii ''Accept: application/vnd.github.raw'', url]),
      e\<lparr>invocations := invocations e @
            [GhApi [ascii ''-H'', ascii ''Accept: application/vnd.github.raw'', url]]\<rparr>)"
  using run_gh_api_command_strs [of "[ascii ''-H'', ascii ''Accept: application/vnd.github.raw'', url]" e]
  by (simp add: raw_header_def)

lemma meta_args: "[JStr (ascii ''repos/'' @ owner @ ascii ''/'' @ repo)] = map JStr (meta_argv owner repo)"
  by (simp add: meta_argv_def)

lemma tree_args_argv: "tree_args e owner repo r = map JStr (tree_argv e owner repo r)"
  by (simp add: tree_args_def tree_argv_def)

lemma tree_argv_log [simp]: "tree_argv (e\<lparr>invocations := l\<rparr>) owner repo r = tree_argv e owner repo r"
  by (simp add: tree_argv_def)

lemma get_default_branch_returns:
  "\<exists>b. get_default_branch owner repo e =
        (Inr b, e\<lparr>invocations := invocations e @ [GhApi (meta_argv owner repo)]\<rparr>)"
  unfolding get_default_branch_def meta_args run_gh_api_command_strs
  by (simp split: sum.splits)

lemma get_default_branch_failure:
  assumes "returncode (gh_api e (meta_argv owner repo)) \<noteq> 0
           \<or> isl (json_loads e (stdout (gh_api e (meta_argv owner repo))))"
  shows "fst (get_default_branch owner repo e) = Inr JNull"
  using assms unfolding get_default_branch_def meta_args run_gh_api_command_strs
  by (auto simp: isl_def split: sum.splits)

lemma get_default_branch_log:
  "fst (get_default_branch owner repo (e\<lparr>invocations := l\<rparr>)) = fst (get_default_branch owner repo e)"
  unfolding get_default_branch_def meta_args run_gh_api_command_strs
  by (simp split: sum.splits)

lemma resolve_ref_returns:
  "\<exists>r. resolve_ref owner repo ref e =
        (Inr r, e\<lparr>invocations := invocations e @
                 (if opt_truthy ref then [] else [GhApi (meta_argv owner repo)])\<rparr>)"
  using get_default_branch_returns [of owner repo e]
  by (auto simp: resolve_ref_def)

lemma resolve_ref_log:
  "fst (resolve_ref owner repo ref (e\<lparr>invocations := l\<rparr>)) = fst (resolve_ref owner repo ref e)"
proof -
  obtain b where b: "get_default_branch owner repo e =
        (Inr b, e\<lparr>invocations := invocations e @ [GhApi (meta_argv owner repo)]\<rparr>)"
    using get_default_branch_returns by blast
  obtain b' where b': "get_default_branch owner repo (e\<lparr>invocations := l\<rparr>) =
        (Inr b', e\<lparr>invocations := l @ [GhApi (meta_argv owner repo)]\<rparr>)"
    using get_default_branch_returns [of owner repo "e\<lparr>invocations := l\<rparr>"] by auto
  have "b' = b" using get_default_branch_log [where owner = owner and repo = repo and e = e and l = l] b b'
    by simp
  then show ?thesis by (simp add: resolve_ref_def b b')
qed

lemma resolve_ref_value:
  "fst (resolve_ref owner repo ref e) =
     Inr (if opt_truthy ref then JStr (the ref)
          else case fst (get_default_branch owner repo e) of
                 Inr b \<Rightarrow> if truthy b then b else JStr (ascii ''main'')
               | Inl x \<Rightarrow> JNull)"
  using get_default_branch_returns [of owner repo e]
  by (auto simp: resolve_ref_def)

lemma list_tree_fetched:
  assumes auth: "gh_auth_status e = 0"
    and r: "fst (resolve_ref owner repo ref e) = Inr r"
    and f: "fetched e (tree_argv e owner repo r) data"
  shows "fst (list_tree owner repo ref path include e) = render_tree r path include data"
proof -
  let ?e1 = "e\<lparr>invocations := invocations e @ [GhAuthStatus]\<rparr>"
  obtain r' where rr: "resolve_ref owner repo ref ?e1 =
      (Inr r', ?e1\<lparr>invocations := invocations ?e1 @
                 (if opt_truthy ref then [] else [GhApi (meta_argv owner repo)])\<rparr>)"
    using resolve_ref_returns by blast
  have "r' = r" using resolve_ref_log [where owner = owner and repo = repo and ref = ref and e = e
        and l = "invocations e @ [GhAuthStatus]"] rr r
    by simp
  with rr f auth show ?thesis
    by (simp add: list_tree_def require_auth_def is_authenticated_def list_tree_body_def
        tree_args_argv run_gh_api_command_strs fetched_def)
qed

lemma list_tree_invocations:
  assumes auth: "gh_auth_status e = 0"
    and r: "fst (resolve_ref owner repo ref e) = Inr r"
  shows "invocations (snd (list_tree owner repo ref path include e)) =
         invocations e @ [GhAuthStatus] @
         (if opt_truthy ref then [] else [GhApi (meta_argv owner repo)]) @
         [GhApi (tree_argv e owner repo r)]"
proof -
  let ?e1 = "e\<lparr>invocations := invocations e @ [GhAuthStatus]\<rparr>"
  obtain r' where rr: "resolve_ref owner repo ref ?e1 =
      (Inr r', ?e1\<lparr>invocations := invocations ?e1 @
                 (if opt_truthy ref then [] else [GhApi (meta_argv owner repo)])\<rparr>)"
    using resolve_ref_returns by blast
  have "r' = r" using resolve_ref_log [where owner = owner and repo = repo and ref = ref and e = e
        and l = "invocations e @ [GhAuthStatus]"] rr r
    by simp
  with rr auth show ?thesis
    by (simp add: list_tree_def require_auth_def is_authenticated_def list_tree_body_def
        tree_args_argv run_gh_api_command_strs split: sum.splits py_exn.splits)
qed

lemma read_file_fetched:
  assumes "gh_auth_status e = 0"
    and "fetched e [contents_path owner repo path ref] data"
  shows "read_file owner repo path ref False e =
         read_content data
           (e\<lparr>invocations := invocations e @
                 [GhAuthStatus, GhApi [contents_path owner repo path ref]]\<rparr>)"
proof -
  have c: "[JStr (contents_path owner repo path ref)] = map JStr [contents_path owner repo path ref]"
    by simp
  show ?thesis
    using assms unfolding read_file_def require_auth_def is_authenticated_def read_file_body_def c
      run_gh_api_command_strs
    by (simp add: fetched_def)
qed

section \<open>The authentication gate\<close>

text \<open>
  C5. When the status probe reports an invalid session (\<open>gh auth status\<close> exits
  with a status other than 0), \<open>list_tree\<close> and \<open>read_file\<close> both return exactly
  \<open>"Error: User is not authenticated"\<close>, and the only process started is the
  probe itself: no \<open>gh api\<close> invocation is made.
\<close>

theorem auth_gate_short_circuits:
  assumes "gh_auth_status e \<noteq> 0"
  shows "list_tree owner repo ref path include e =
           (Inr (ascii ''Error: User is not authenticated''),
            e\<lparr>invocations := invocations e @ [GhAuthStatus]\<rparr>)
       \<and> read_file owner repo fpath ref raw e =
           (Inr (ascii ''Error: User is not authenticated''),
            e\<lparr>invocations := invocations e @ [GhAuthStatus]\<rparr>)"
  using assms by (simp add: list_tree_def read_file_def require_auth_def is_authenticated_def)

text \<open>
  Both operations in a session whose probe exits with 1.
\<close>

theorem auth_gate_short_circuits_witness:
  "gh_auth_status (fake_env 1 [] []) \<noteq> 0
   \<and> list_tree (ascii ''acme'') (ascii ''widgets'') None None (ascii ''all'') (fake_env 1 [] []) =
       (Inr (ascii ''Error: User is not authenticated''),
        (fake_env 1 [] [])\<lparr>invocations := [GhAuthStatus]\<rparr>)
   \<and> read_file (ascii ''acme'') (ascii ''widgets'') (ascii ''/README.md'') None False (fake_env 1 [] []) =
       (Inr (ascii ''Error: User is not authenticated''),
        (fake_env 1 [] [])\<lparr>invocations := [GhAuthStatus]\<rparr>)"
  using auth_gate_short_circuits [of "fake_env 1 [] []" "ascii ''acme''" "ascii ''widgets''" None None
      "ascii ''all''" "ascii ''/README.md''" False]
  by (simp add: fake_env_def)

section \<open>The tree lister\<close>

subsection \<open>Trees whose entries are objects\<close>

lemma filter_exn_objects:
  assumes "\<forall>kvs \<in> set es. f (JObj kvs) = Inr (g kvs)"
  shows "filter_exn f (map JObj es) = Inr (map JObj (filter g es))"
  using assms by (induction es) simp_all

lemma map_exn_objects:
  assumes "\<forall>kvs \<in> set es. f (JObj kvs) = Inr (g kvs)"
  shows "map_exn f (map JObj es) = Inr (map g es)"
  using assms by (induction es) simp_all

lemma type_is_object: "type_is t (JObj kvs) = Inr (field kvs (ascii ''type'') = JStr t)"
  by (simp add: type_is_def field_def)

lemma path_matches_object:
  assumes "path_text kvs = Some s"
  shows "path_matches prefix (JObj kvs) = Inr (startswith s prefix)"
  using assms by (auto simp: path_matches_def path_text_def split: option.splits json.splits)

lemma project_entry_object: "project_entry (JObj kvs) = Inr (projected kvs)"
  by (simp add: project_entry_def type_is_object projected_def
      directory_entry_def file_entry_def) (simp add: field_def)

lemma filter_by_path_objects:
  assumes "opt_truthy path \<longrightarrow> (\<forall>kvs \<in> set es. path_text kvs \<noteq> None)"
  shows "filter_by_path path (JArr (map JObj es)) = Inr (JArr (map JObj (filter (path_kept path) es)))"
proof (cases "opt_truthy path")
  case True
  have "\<forall>kvs \<in> set es. path_matches (lstrip_slash (the path)) (JObj kvs) = Inr (path_kept path kvs)"
    using assms True by (auto simp: path_kept_def path_matches_object)
  from filter_exn_objects [OF this] True show ?thesis
    by (simp add: filter_by_path_def)
next
  case False
  then show ?thesis by (simp add: filter_by_path_def path_kept_def)
qed

lemma filter_by_kind_objects:
  "filter_by_kind include (JArr (map JObj es)) = Inr (JArr (map JObj (filter (kind_kept include) es)))"
proof -
  have b: "filter_exn (type_is t) (map JObj es) =
        Inr (map JObj (filter (\<lambda>kvs. field kvs (ascii ''type'') = JStr t) es))" for t
    by (rule filter_exn_objects) (simp add: type_is_object)
  have k: "kind_kept include =
      (\<lambda>kvs. if include = ascii ''files'' then field kvs (ascii ''type'') = JStr (ascii ''blob'')
             else if include = ascii ''dirs'' then field kvs (ascii ''type'') = JStr (ascii ''tree'')
             else True)"
    by (rule ext) (simp add: kind_kept_def)
  show ?thesis
    unfolding k by (simp add: filter_by_kind_def b)
qed

lemma project_entries_objects: "project_entries (JArr (map JObj es)) = Inr (map projected es)"
  by (simp add: project_entries_def map_exn_objects project_entry_object)

lemma tree_present:
  assumes "map_of items (ascii ''tree'') = Some v"
  shows "py_in (ascii ''tree'') (JObj items) = Inr True"
    and "py_getitem (JObj items) (ascii ''tree'') = Inr v"
  using assms map_of_eq_None_iff [of items "ascii ''tree''"] by simp_all

lemma render_tree_objects:
  assumes "map_of items (ascii ''tree'') = Some (JArr (map JObj es))"
    and "opt_truthy path \<longrightarrow> (\<forall>kvs \<in> set es. path_text kvs \<noteq> None)"
  shows "render_tree r path include (JObj items) =
         Inr (json_dumps (tree_result r
                (map projected (filter (kind_kept include) (filter (path_kept path) es)))))"
  unfolding render_tree_def tree_present [OF assms(1)]
  by (simp add: filter_by_path_objects [OF assms(2)] filter_by_kind_objects project_entries_objects)

subsection \<open>The repository of the scenarios\<close>

lemma widgets_resolved:
  "fst (resolve_ref (ascii ''acme'') (ascii ''widgets'') None widgets_env) = Inr (JStr (ascii ''main''))"
  by (simp add: run_defs fake_defs dumps_defs ascii_def)

lemma widgets_fetched:
  "fetched widgets_env (tree_argv widgets_env (ascii ''acme'') (ascii ''widgets'') (JStr (ascii ''main'')))
     widgets_tree"
  by (simp add: fetched_def tree_argv_def run_defs fake_defs dumps_defs ascii_def)

lemma widgets_dirs:
  \<open>fst (list_tree (ascii ''acme'') (ascii ''widgets'') None None (ascii ''dirs'') widgets_env) =
     Inr (ascii ''{"ref": "main", "count": 1, "entries": [{"path": "lib", "type": "directory"}]}'')\<close>
  by (simp add: run_defs fake_defs dumps_defs tree_defs ascii_def)

lemma no_meta_dirs:
  \<open>list_tree (ascii ''acme'') (ascii ''widgets'') None None (ascii ''dirs'') widgets_env_no_meta =
     (Inr (ascii ''{"ref": "main", "count": 1, "entries": [{"path": "lib", "type": "directory"}]}''),
      widgets_env_no_meta\<lparr>invocations :=
        [GhAuthStatus, GhApi [ascii ''repos/acme/widgets''], GhApi widgets_tree_argv]\<rparr>)\<close>
  by (simp add: run_defs fake_defs dumps_defs tree_defs bytes_repr_def ascii_def)

subsection \<open>The kind filter\<close>

text \<open>
  C10. For every \<open>include\<close> value other than \<open>"files"\<close> and \<open>"dirs"\<close>, \<open>list_tree\<close>
  applies no kind filter and returns what it returns for \<open>"all"\<close>, in the same
  environment and with the same invocations; an unknown value is not an error.
\<close>

theorem unknown_include_is_all:
  assumes "include \<noteq> ascii ''files''" and "include \<noteq> ascii ''dirs''"
  shows "list_tree owner repo ref path include e = list_tree owner repo ref path (ascii ''all'') e"
proof -
  have k: "filter_by_kind include x = filter_by_kind (ascii ''all'') x" for x
    using assms by (simp add: filter_by_kind_def) (simp add: ascii_def)
  have r: "render_tree r path include d = render_tree r path (ascii ''all'') d" for r d
    by (simp add: render_tree_def k cong: if_cong)
  have b: "list_tree_body owner repo ref path include =
           list_tree_body owner repo ref path (ascii ''all'')"
    by (rule ext) (simp add: list_tree_body_def r split: prod.splits sum.splits py_exn.splits)
  show ?thesis
    by (simp add: list_tree_def b)
qed

text \<open>
  The value \<open>"everything"\<close> on \<open>acme/widgets\<close>.
\<close>

theorem unknown_include_is_all_witness:
  "ascii ''everything'' \<noteq> ascii ''files'' \<and> ascii ''everything'' \<noteq> ascii ''dirs''
   \<and> list_tree (ascii ''acme'') (ascii ''widgets'') None None (ascii ''everything'') widgets_env =
       list_tree (ascii ''acme'') (ascii ''widgets'') None None (ascii ''all'') widgets_env"
proof -
  have h1: "ascii ''everything'' \<noteq> ascii ''files''" by (simp add: ascii_def)
  have h2: "ascii ''everything'' \<noteq> ascii ''dirs''" by (simp add: ascii_def)
  show ?thesis
    using h1 h2 unknown_include_is_all [OF h1 h2] by simp
qed

subsection \<open>The projection\<close>

text \<open>
  C1, as stated, fails: in the scenario the returned string is not the
  serialization of \<open>{ref, count: 1, entries: [{path: "lib", kind: "directory"}]}\<close>,
  because the program writes the kind under the key \<open>type\<close>.
\<close>

theorem list_tree_kind_keys_counterexample:
  "fst (list_tree (ascii ''acme'') (ascii ''widgets'') None None (ascii ''dirs'') widgets_env) \<noteq>
     Inr (json_dumps (spec_tree_result (JStr (ascii ''main''))
                        [spec_directory_entry (JStr (ascii ''lib''))]))"
  by (simp add: run_defs fake_defs dumps_defs tree_defs spec_tree_result_def
      spec_directory_entry_def ascii_def)

text \<open>
  C1, amended. In a valid session, for every fetched tree whose entries are
  objects, \<open>list_tree\<close> projects each surviving entry in order: an entry of type \<open>"tree"\<close> to
  \<open>{"path": path, "type": "directory"}\<close> with no size key, every other entry to
  \<open>{"path": path, "type": "file", "bytes": size}\<close>, where an absent path or size
  is \<open>null\<close>. In the scenario, \<open>list_tree("acme", "widgets", include="dirs")\<close>
  returns \<open>{"ref": "main", "count": 1, "entries": [{"path": "lib", "type": "directory"}]}\<close>.
\<close>

theorem list_tree_projects_entries:
  assumes "gh_auth_status e = 0"
    and "fst (resolve_ref owner repo ref e) = Inr r"
    and "fetched e (tree_argv e owner repo r) (JObj items)"
    and "map_of items (ascii ''tree'') = Some (JArr (map JObj es))"
    and "opt_truthy path \<longrightarrow> (\<forall>kvs \<in> set es. path_text kvs \<noteq> None)"
  shows \<open>fst (list_tree owner repo ref path include e) =
           Inr (json_dumps (JObj
             [(ascii ''ref'', r),
              (ascii ''count'',
               JInt (int (length (filter (kind_kept include) (filter (path_kept path) es))))),
              (ascii ''entries'',
               JArr (map (\<lambda>kvs. if field kvs (ascii ''type'') = JStr (ascii ''tree'')
                                then JObj [(ascii ''path'', field kvs (ascii ''path'')),
                                           (ascii ''type'', JStr (ascii ''directory''))]
                                else JObj [(ascii ''path'', field kvs (ascii ''path'')),
                                           (ascii ''type'', JStr (ascii ''file'')),
                                           (ascii ''bytes'', field kvs (ascii ''size''))])
                       (filter (kind_kept include) (filter (path_kept path) es))))]))
       \<and> fst (list_tree (ascii ''acme'') (ascii ''widgets'') None None (ascii ''dirs'') widgets_env) =
           Inr (ascii ''{"ref": "main", "count": 1, "entries": [{"path": "lib", "type": "directory"}]}'')\<close>
proof -
  have p: "projected = (\<lambda>kvs. if field kvs (ascii ''type'') = JStr (ascii ''tree'')
                                then JObj [(ascii ''path'', field kvs (ascii ''path'')),
                                           (ascii ''type'', JStr (ascii ''directory''))]
                                else JObj [(ascii ''path'', field kvs (ascii ''path'')),
                                           (ascii ''type'', JStr (ascii ''file'')),
                                           (ascii ''bytes'', field kvs (ascii ''size''))])"
    by (rule ext) (simp add: projected_def directory_entry_def file_entry_def)
  have "fst (list_tree owner repo ref path include e) =
        Inr (json_dumps (tree_result r
               (map projected (filter (kind_kept include) (filter (path_kept path) es)))))"
    using list_tree_fetched [OF assms(1-3)] render_tree_objects [OF assms(4,5)] by simp
  then show ?thesis
    unfolding p using widgets_dirs by (simp add: tree_result_def)
qed

text \<open>
  The projection on \<open>acme/widgets\<close> with the path filter \<open>"lib/"\<close> and the kind
  filter \<open>"files"\<close>: the one file entry, with its size under \<open>bytes\<close>.
\<close>

theorem list_tree_projects_entries_witness:
  \<open>gh_auth_status widgets_env = 0
   \<and> fst (resolve_ref (ascii ''acme'') (ascii ''widgets'') None widgets_env) = Inr (JStr (ascii ''main''))
   \<and> fetched widgets_env
        (tree_argv widgets_env (ascii ''acme'') (ascii ''widgets'') (JStr (ascii ''main'')))
        (JObj widgets_tree_items)
   \<and> map_of widgets_tree_items (ascii ''tree'') = Some (JArr (map JObj [lib_entry, a_go_entry]))
   \<and> opt_truthy (Some (ascii ''lib/''))
   \<and> path_text lib_entry \<noteq> None
   \<and> path_text a_go_entry \<noteq> None
   \<and> fst (list_tree (ascii ''acme'') (ascii ''widgets'') None (Some (ascii ''lib/'')) (ascii ''files'')
           widgets_env) =
       Inr (ascii ''{"ref": "main", "count": 1, "entries": [{"path": "lib/a.go", "type": "file", "bytes": 10}]}'')\<close>
proof -
  have a: "gh_auth_status widgets_env = 0" by (simp add: fake_defs)
  have f: "fetched widgets_env
        (tree_argv widgets_env (ascii ''acme'') (ascii ''widgets'') (JStr (ascii ''main'')))
        (JObj widgets_tree_items)"
    using widgets_fetched by (simp add: widgets_tree_def)
  have m: "map_of widgets_tree_items (ascii ''tree'') = Some (JArr (map JObj [lib_entry, a_go_entry]))"
    by (simp add: widgets_tree_items_def)
  have p: "opt_truthy (Some (ascii ''lib/'')) \<longrightarrow>
        (\<forall>kvs \<in> set [lib_entry, a_go_entry]. path_text kvs \<noteq> None)"
    by (simp add: path_text_def lib_entry_def a_go_entry_def)
  have r: \<open>fst (list_tree (ascii ''acme'') (ascii ''widgets'') None (Some (ascii ''lib/'')) (ascii ''files'')
           widgets_env) =
       Inr (ascii ''{"ref": "main", "count": 1, "entries": [{"path": "lib/a.go", "type": "file", "bytes": 10}]}'')\<close>
    using list_tree_projects_entries [OF a widgets_resolved f m p, of "ascii ''files''"]
    by (simp add: kind_kept_def path_kept_def path_text_def field_def lib_entry_def a_go_entry_def
        startswith_def lstrip_slash_def dumps_defs ascii_def)
  have q: "opt_truthy (Some (ascii ''lib/''))" "path_text lib_entry \<noteq> None"
    "path_text a_go_entry \<noteq> None"
    by (simp_all add: path_text_def lib_entry_def a_go_entry_def ascii_def)
  show ?thesis
    using a widgets_resolved f m q r by simp
qed

subsection \<open>The path filter\<close>

text \<open>
  C4, as stated, fails: with the filter \<open>"//lib"\<close> both entries are kept, although
  removing a single leading slash leaves \<open>"/lib"\<close>, with which neither path
  starts.
\<close>

theorem path_filter_single_slash_counterexample:
  \<open>fst (list_tree (ascii ''acme'') (ascii ''widgets'') None (Some (ascii ''//lib'')) (ascii ''all'')
          widgets_env) =
     Inr (ascii ''{"ref": "main", "count": 2, "entries": [{"path": "lib", "type": "directory"}, {"path": "lib/a.go", "type": "file", "bytes": 10}]}'')
   \<and> spec_strip_single_slash (ascii ''//lib'') = ascii ''/lib''
   \<and> \<not> startswith (ascii ''lib'') (spec_strip_single_slash (ascii ''//lib''))
   \<and> \<not> startswith (ascii ''lib/a.go'') (spec_strip_single_slash (ascii ''//lib''))\<close>
  by (simp add: run_defs fake_defs dumps_defs tree_defs spec_strip_single_slash_def ascii_def)

text \<open>
  C4, amended. In a valid session, for every non-empty path filter and every
  fetched tree whose entries are objects, \<open>list_tree\<close> keeps exactly the
  entries whose path starts with the filter after all its leading \<open>"/"\<close>
  characters have been removed, as a prefix of characters: the filter \<open>"src"\<close>
  keeps both \<open>"src/a.txt"\<close> and \<open>"src2/b.txt"\<close>, and the filter \<open>"//src"\<close> is
  compared as \<open>"src"\<close>.
\<close>

theorem path_filter_strips_every_leading_slash:
  assumes "gh_auth_status e = 0"
    and "fst (resolve_ref owner repo ref e) = Inr r"
    and "fetched e (tree_argv e owner repo r) (JObj items)"
    and "map_of items (ascii ''tree'') = Some (JArr (map JObj es))"
    and "p \<noteq> []"
    and "\<forall>kvs \<in> set es. path_text kvs \<noteq> None"
  shows "fst (list_tree owner repo ref (Some p) (ascii ''all'') e) =
           Inr (json_dumps (tree_result r (map projected
                  (filter (\<lambda>kvs. case path_text kvs of
                                   None \<Rightarrow> False
                                 | Some s \<Rightarrow> startswith s (dropWhile (\<lambda>c. c = 47) p)) es))))
       \<and> lstrip_slash (ascii ''//src'') = ascii ''src''
       \<and> startswith (ascii ''src/a.txt'') (lstrip_slash (ascii ''src''))
       \<and> startswith (ascii ''src2/b.txt'') (lstrip_slash (ascii ''src''))"
proof -
  have o: "opt_truthy (Some p) \<longrightarrow> (\<forall>kvs \<in> set es. path_text kvs \<noteq> None)"
    using assms(6) by simp
  have k: "kind_kept (ascii ''all'') = (\<lambda>kvs. True)"
    by (rule ext) (simp add: kind_kept_def ascii_def)
  have q: "path_kept (Some p) = (\<lambda>kvs. case path_text kvs of
                                   None \<Rightarrow> False
                                 | Some s \<Rightarrow> startswith s (dropWhile (\<lambda>c. c = 47) p))"
    using assms(5) by (intro ext) (simp add: path_kept_def lstrip_slash_def split: option.splits)
  have "fst (list_tree owner repo ref (Some p) (ascii ''all'') e) =
        Inr (json_dumps (tree_result r
               (map projected (filter (kind_kept (ascii ''all'')) (filter (path_kept (Some p)) es)))))"
    using list_tree_fetched [OF assms(1-3)] render_tree_objects [OF assms(4) o] by simp
  then show ?thesis
    unfolding k q by (simp add: lstrip_slash_def startswith_def ascii_def)
qed

text \<open>
  The filter \<open>"//lib/"\<close> on \<open>acme/widgets\<close> keeps \<open>"lib/a.go"\<close> and drops \<open>"lib"\<close>.
\<close>

theorem path_filter_strips_every_leading_slash_witness:
  \<open>gh_auth_status widgets_env = 0
   \<and> fst (resolve_ref (ascii ''acme'') (ascii ''widgets'') None widgets_env) = Inr (JStr (ascii ''main''))
   \<and> fetched widgets_env
        (tree_argv widgets_env (ascii ''acme'') (ascii ''widgets'') (JStr (ascii ''main'')))
        (JObj widgets_tree_items)
   \<and> map_of widgets_tree_items (ascii ''tree'') = Some (JArr (map JObj [lib_entry, a_go_entry]))
   \<and> ascii ''//lib/'' \<noteq> []
   \<and> path_text lib_entry \<noteq> None
   \<and> path_text a_go_entry \<noteq> None
   \<and> fst (list_tree (ascii ''acme'') (ascii ''widgets'') None (Some (ascii ''//lib/'')) (ascii ''all'')
           widgets_env) =
       Inr (ascii ''{"ref": "main", "count": 1, "entries": [{"path": "lib/a.go", "type": "file", "bytes": 10}]}'')\<close>
proof -
  have a: "gh_auth_status widgets_env = 0" by (simp add: fake_defs)
  have f: "fetched widgets_env
        (tree_argv widgets_env (ascii ''acme'') (ascii ''widgets'') (JStr (ascii ''main'')))
        (JObj widgets_tree_items)"
    using widgets_fetched by (simp add: widgets_tree_def)
  have m: "map_of widgets_tree_items (ascii ''tree'') = Some (JArr (map JObj [lib_entry, a_go_entry]))"
    by (simp add: widgets_tree_items_def)
  have n: "ascii ''//lib/'' \<noteq> []" by (simp add: ascii_def)
  have p: "\<forall>kvs \<in> set [lib_entry, a_go_entry]. path_text kvs \<noteq> None"
    by (simp add: path_text_def lib_entry_def a_go_entry_def)
  have r: \<open>fst (list_tree (ascii ''acme'') (ascii ''widgets'') None (Some (ascii ''//lib/'')) (ascii ''all'')
           widgets_env) =
       Inr (ascii ''{"ref": "main", "count": 1, "entries": [{"path": "lib/a.go", "type": "file", "bytes": 10}]}'')\<close>
    using path_filter_strips_every_leading_slash [OF a widgets_resolved f m n p]
    by (simp add: path_text_def projected_def field_def lib_entry_def a_go_entry_def
        startswith_def dumps_defs ascii_def)
  have q: "path_text lib_entry \<noteq> None" "path_text a_go_entry \<noteq> None"
    by (simp_all add: path_text_def lib_entry_def a_go_entry_def ascii_def)
  show ?thesis
    using a widgets_resolved f m n q r by simp
qed

subsection \<open>The result\<close>

lemma bind_exn_Inr:
  assumes "bind_exn m f = Inr y"
  obtains x where "m = Inr x" and "f x = Inr y"
  using assms by (cases m) simp_all

lemma project_entry_shape:
  assumes "project_entry x = Inr m"
  shows "(\<exists>p. m = directory_entry p) \<or> (\<exists>p sz. m = file_entry p sz)"
proof (cases x)
  case (JObj kvs)
  then show ?thesis
    using assms by (cases "field kvs (ascii ''type'') = JStr (ascii ''tree'')")
      (auto simp: project_entry_object projected_def)
qed (use assms in \<open>simp_all add: project_entry_def type_is_def\<close>)

lemma map_exn_shape:
  assumes "map_exn project_entry xs = Inr ys"
  shows "\<forall>m \<in> set ys. (\<exists>p. m = directory_entry p) \<or> (\<exists>p sz. m = file_entry p sz)"
  using assms
proof (induction xs arbitrary: ys)
  case Nil
  then show ?case by simp
next
  case (Cons x xs)
  from Cons.prems obtain y where y: "project_entry x = Inr y"
    and rest: "bind_exn (map_exn project_entry xs) (\<lambda>ys'. Inr (y # ys')) = Inr ys"
    by (auto elim: bind_exn_Inr)
  from rest obtain ys' where ys': "map_exn project_entry xs = Inr ys'" and eq: "ys = y # ys'"
    by (auto elim: bind_exn_Inr)
  show ?case
    using project_entry_shape [OF y] Cons.IH [OF ys'] eq by auto
qed

lemma render_tree_shape:
  assumes "render_tree r path include data = Inr s"
    and "py_in (ascii ''tree'') data = Inr True"
  shows "\<exists>mapped. s = json_dumps (tree_result r mapped)
           \<and> (\<forall>m \<in> set mapped. (\<exists>p. m = directory_entry p) \<or> (\<exists>p sz. m = file_entry p sz))"
proof -
  from assms obtain entries2 mapped where p: "project_entries entries2 = Inr mapped"
    and s: "s = json_dumps (tree_result r mapped)"
    unfolding render_tree_def by (auto elim!: bind_exn_Inr)
  from p obtain xs where "map_exn project_entry xs = Inr mapped"
    unfolding project_entries_def by (auto elim: bind_exn_Inr)
  from map_exn_shape [OF this] s show ?thesis by blast
qed

text \<open>
  C9. Whenever \<open>list_tree\<close> returns a tree result (the session is valid, the tree
  request for the resolved ref \<open>r\<close> succeeds, its output parses to a value
  holding a tree, and nothing raises), the returned string is the
  serialization of \<open>{ref: r, count: n, entries: mapped}\<close> where \<open>n\<close> is the length
  of \<open>mapped\<close>, and every element of \<open>mapped\<close> is either a directory entry, with
  exactly the keys \<open>path\<close> and \<open>type\<close> and so no size, or a file entry, with the
  keys \<open>path\<close>, \<open>type\<close> and the size key \<open>bytes\<close>.
\<close>

theorem tree_result_invariant:
  assumes "gh_auth_status e = 0"
    and "fst (resolve_ref owner repo ref e) = Inr r"
    and "fetched e (tree_argv e owner repo r) data"
    and "py_in (ascii ''tree'') data = Inr True"
    and "fst (list_tree owner repo ref path include e) = Inr s"
  shows "\<exists>mapped.
           s = json_dumps (JObj [(ascii ''ref'', r),
                                 (ascii ''count'', JInt (int (length mapped))),
                                 (ascii ''entries'', JArr mapped)])
         \<and> (\<forall>m \<in> set mapped.
               (\<exists>p. m = JObj [(ascii ''path'', p), (ascii ''type'', JStr (ascii ''directory''))])
             \<or> (\<exists>p sz. m = JObj [(ascii ''path'', p), (ascii ''type'', JStr (ascii ''file'')),
                                  (ascii ''bytes'', sz)]))"
proof -
  have "render_tree r path include data = Inr s"
    using list_tree_fetched [OF assms(1-3)] assms(5) by simp
  from render_tree_shape [OF this assms(4)] show ?thesis
    by (simp add: tree_result_def directory_entry_def file_entry_def)
qed

text \<open>
  The invariant on the two entries of \<open>acme/widgets\<close>: a count of 2, a directory
  without \<open>bytes\<close> and a file with it.
\<close>

theorem tree_result_invariant_witness:
  \<open>gh_auth_status widgets_env = 0
   \<and> fst (resolve_ref (ascii ''acme'') (ascii ''widgets'') None widgets_env) = Inr (JStr (ascii ''main''))
   \<and> fetched widgets_env
        (tree_argv widgets_env (ascii ''acme'') (ascii ''widgets'') (JStr (ascii ''main''))) widgets_tree
   \<and> py_in (ascii ''tree'') widgets_tree = Inr True
   \<and> fst (list_tree (ascii ''acme'') (ascii ''widgets'') None None (ascii ''all'') widgets_env) =
       Inr (ascii ''{"ref": "main", "count": 2, "entries": [{"path": "lib", "type": "directory"}, {"path": "lib/a.go", "type": "file", "bytes": 10}]}'')
   \<and> (\<exists>mapped.
         ascii ''{"ref": "main", "count": 2, "entries": [{"path": "lib", "type": "directory"}, {"path": "lib/a.go", "type": "file", "bytes": 10}]}'' =
           json_dumps (JObj [(ascii ''ref'', JStr (ascii ''main'')),
                             (ascii ''count'', JInt (int (length mapped))),
                             (ascii ''entries'', JArr mapped)])
       \<and> (\<forall>m \<in> set mapped.
             (\<exists>p. m = JObj [(ascii ''path'', p), (ascii ''type'', JStr (ascii ''directory''))])
           \<or> (\<exists>p sz. m = JObj [(ascii ''path'', p), (ascii ''type'', JStr (ascii ''file'')),
                                (ascii ''bytes'', sz)])))\<close>
proof -
  have a: "gh_auth_status widgets_env = 0" by (simp add: fake_defs)
  have t: "py_in (ascii ''tree'') widgets_tree = Inr True" by (simp add: fake_defs)
  have s: \<open>fst (list_tree (ascii ''acme'') (ascii ''widgets'') None None (ascii ''all'') widgets_env) =
       Inr (ascii ''{"ref": "main", "count": 2, "entries": [{"path": "lib", "type": "directory"}, {"path": "lib/a.go", "type": "file", "bytes": 10}]}'')\<close>
    by (simp add: run_defs fake_defs dumps_defs tree_defs ascii_def)
  show ?thesis
    using a widgets_resolved widgets_fetched t s
      tree_result_invariant [OF a widgets_resolved widgets_fetched t s]
    by simp
qed

subsection \<open>The resolved ref\<close>

text \<open>
  C8. The resolver always returns a value, after one metadata request, and
  never raises; when that request fails or its output does not parse it
  returns \<open>None\<close>. In a valid session \<open>list_tree\<close> resolves a ref \<open>r\<close>: the supplied
  ref when there is one, otherwise what the resolver returned or, when that
  is \<open>None\<close> (or otherwise false), the literal \<open>"main"\<close>. Without a supplied ref
  the processes started are the status probe, the metadata request and the
  tree request for \<open>r\<close>, in this order; and the \<open>ref\<close> field of a returned tree
  result is the same \<open>r\<close> that the tree request used.
\<close>

theorem default_branch_fallback:
  "(\<exists>b. get_default_branch owner repo e =
          (Inr b, e\<lparr>invocations := invocations e @ [GhApi (meta_argv owner repo)]\<rparr>))
   \<and> (returncode (gh_api e (meta_argv owner repo)) \<noteq> 0
        \<or> isl (json_loads e (stdout (gh_api e (meta_argv owner repo))))
      \<longrightarrow> fst (get_default_branch owner repo e) = Inr JNull)
   \<and> (gh_auth_status e = 0 \<longrightarrow>
        (\<exists>r. fst (resolve_ref owner repo ref e) = Inr r
           \<and> (\<forall>x. ref = Some x \<and> x \<noteq> [] \<longrightarrow> r = JStr x)
           \<and> (\<not> opt_truthy ref \<longrightarrow>
                (\<exists>b. fst (get_default_branch owner repo e) = Inr b
                    \<and> r = (if truthy b then b else JStr (ascii ''main''))))
           \<and> invocations (snd (list_tree owner repo ref path include e)) =
               invocations e @ [GhAuthStatus] @
               (if opt_truthy ref then [] else [GhApi (meta_argv owner repo)]) @
               [GhApi (tree_argv e owner repo r)]
           \<and> (\<forall>data s. fetched e (tree_argv e owner repo r) data
                  \<and> py_in (ascii ''tree'') data = Inr True
                  \<and> fst (list_tree owner repo ref path include e) = Inr s
                \<longrightarrow> (\<exists>mapped. s = json_dumps (JObj [(ascii ''ref'', r),
                                    (ascii ''count'', JInt (int (length mapped))),
                                    (ascii ''entries'', JArr mapped)])))))"
proof (intro conjI impI)
  show "\<exists>b. get_default_branch owner repo e =
          (Inr b, e\<lparr>invocations := invocations e @ [GhApi (meta_argv owner repo)]\<rparr>)"
    by (rule get_default_branch_returns)
next
  assume "returncode (gh_api e (meta_argv owner repo)) \<noteq> 0
        \<or> isl (json_loads e (stdout (gh_api e (meta_argv owner repo))))"
  then show "fst (get_default_branch owner repo e) = Inr JNull"
    by (rule get_default_branch_failure)
next
  assume auth: "gh_auth_status e = 0"
  obtain b where b: "fst (get_default_branch owner repo e) = Inr b"
    using get_default_branch_returns [of owner repo e] by auto
  define r where "r = (if opt_truthy ref then JStr (the ref)
                       else if truthy b then b else JStr (ascii ''main''))"
  have rr: "fst (resolve_ref owner repo ref e) = Inr r"
    by (simp add: resolve_ref_value b r_def)
  have shape: "\<exists>mapped. s = json_dumps (JObj [(ascii ''ref'', r),
                                    (ascii ''count'', JInt (int (length mapped))),
                                    (ascii ''entries'', JArr mapped)])"
    if "fetched e (tree_argv e owner repo r) data" and "py_in (ascii ''tree'') data = Inr True"
      and "fst (list_tree owner repo ref path include e) = Inr s" for data s
  proof -
    have "render_tree r path include data = Inr s"
      using list_tree_fetched [OF auth rr that(1)] that(3) by simp
    from render_tree_shape [OF this that(2)] show ?thesis
      by (auto simp: tree_result_def)
  qed
  show "\<exists>r. fst (resolve_ref owner repo ref e) = Inr r
           \<and> (\<forall>x. ref = Some x \<and> x \<noteq> [] \<longrightarrow> r = JStr x)
           \<and> (\<not> opt_truthy ref \<longrightarrow>
                (\<exists>b. fst (get_default_branch owner repo e) = Inr b
                    \<and> r = (if truthy b then b else JStr (ascii ''main''))))
           \<and> invocations (snd (list_tree owner repo ref path include e)) =
               invocations e @ [GhAuthStatus] @
               (if opt_truthy ref then [] else [GhApi (meta_argv owner repo)]) @
               [GhApi (tree_argv e owner repo r)]
           \<and> (\<forall>data s. fetched e (tree_argv e owner repo r) data
                  \<and> py_in (ascii ''tree'') data = Inr True
                  \<and> fst (list_tree owner repo ref path include e) = Inr s
                \<longrightarrow> (\<exists>mapped. s = json_dumps (JObj [(ascii ''ref'', r),
                                    (ascii ''count'', JInt (int (length mapped))),
                                    (ascii ''entries'', JArr mapped)])))"
  proof (rule exI [of _ r], intro conjI allI impI)
    show "fst (resolve_ref owner repo ref e) = Inr r" by (rule rr)
  next
    fix x assume "ref = Some x \<and> x \<noteq> []"
    then show "r = JStr x" by (simp add: r_def)
  next
    assume "\<not> opt_truthy ref"
    then show "\<exists>b. fst (get_default_branch owner repo e) = Inr b
                    \<and> r = (if truthy b then b else JStr (ascii ''main''))"
      using b by (simp add: r_def)
  next
    show "invocations (snd (list_tree owner repo ref path include e)) =
               invocations e @ [GhAuthStatus] @
               (if opt_truthy ref then [] else [GhApi (meta_argv owner repo)]) @
               [GhApi (tree_argv e owner repo r)]"
      by (rule list_tree_invocations [OF auth rr])
  next
    fix data s
    assume "fetched e (tree_argv e owner repo r) data
                  \<and> py_in (ascii ''tree'') data = Inr True
                  \<and> fst (list_tree owner repo ref path include e) = Inr s"
    then show "\<exists>mapped. s = json_dumps (JObj [(ascii ''ref'', r),
                                    (ascii ''count'', JInt (int (length mapped))),
                                    (ascii ''entries'', JArr mapped)])"
      using shape by blast
  qed
qed

text \<open>
  The fallback on \<open>acme/widgets\<close> when the metadata request fails: the tree of
  \<open>main\<close> is requested and \<open>"main"\<close> is the \<open>ref\<close> of the result.
\<close>

theorem default_branch_fallback_witness:
  \<open>returncode (gh_api widgets_env_no_meta (meta_argv (ascii ''acme'') (ascii ''widgets''))) \<noteq> 0
   \<and> gh_auth_status widgets_env_no_meta = 0
   \<and> \<not> opt_truthy None
   \<and> fst (get_default_branch (ascii ''acme'') (ascii ''widgets'') widgets_env_no_meta) = Inr JNull
   \<and> fst (resolve_ref (ascii ''acme'') (ascii ''widgets'') None widgets_env_no_meta) =
       Inr (JStr (ascii ''main''))
   \<and> invocations (snd (list_tree (ascii ''acme'') (ascii ''widgets'') None None (ascii ''dirs'')
                          widgets_env_no_meta)) =
       [GhAuthStatus, GhApi [ascii ''repos/acme/widgets''],
        GhApi [ascii ''repos/acme/widgets/git/trees/main'', ascii ''--method'', ascii ''GET'',
               ascii ''-F'', ascii ''recursive=1'']]
   \<and> fetched widgets_env_no_meta
        (tree_argv widgets_env_no_meta (ascii ''acme'') (ascii ''widgets'') (JStr (ascii ''main'')))
        widgets_tree
   \<and> py_in (ascii ''tree'') widgets_tree = Inr True
   \<and> fst (list_tree (ascii ''acme'') (ascii ''widgets'') None None (ascii ''dirs'') widgets_env_no_meta) =
       Inr (ascii ''{"ref": "main", "count": 1, "entries": [{"path": "lib", "type": "directory"}]}'')\<close>
proof -
  have m: "returncode (gh_api widgets_env_no_meta (meta_argv (ascii ''acme'') (ascii ''widgets''))) \<noteq> 0"
    by (simp add: fake_defs meta_argv_def ascii_def)
  have a: "gh_auth_status widgets_env_no_meta = 0" by (simp add: fake_defs)
  have f: "fetched widgets_env_no_meta
        (tree_argv widgets_env_no_meta (ascii ''acme'') (ascii ''widgets'') (JStr (ascii ''main'')))
        widgets_tree"
    by (simp add: fetched_def tree_argv_def run_defs fake_defs dumps_defs ascii_def)
  have t: "py_in (ascii ''tree'') widgets_tree = Inr True" by (simp add: fake_defs)
  show ?thesis
    using m a f t no_meta_dirs
      default_branch_fallback [of "ascii ''acme''" "ascii ''widgets''" widgets_env_no_meta None
        None "ascii ''dirs''"]
    by (auto simp: meta_argv_def tree_argv_def py_str_def widgets_tree_argv_def fake_env_def
        widgets_env_no_meta_def)
qed

section \<open>Base64\<close>

lemma or_push_bit_small:
  fixes a b :: nat
  assumes "b < 2 ^ n"
  shows "or (push_bit n a) b = a * 2 ^ n + b"
proof -
  have "push_bit n a + b = or (push_bit n a) b"
  proof (rule disjunctive_add)
    fix m
    show "\<not> bit (push_bit n a) m \<or> \<not> bit b m"
    proof (cases "m < n")
      case True
      then show ?thesis by (simp add: bit_push_bit_iff)
    next
      case False
      then have "2 ^ n \<le> (2::nat) ^ m" by simp
      with assms have "b < 2 ^ m" by linarith
      then have "\<not> bit b m" by (simp add: bit_iff_odd)
      then show ?thesis by simp
    qed
  qed
  then show ?thesis by (simp add: push_bit_eq_mult)
qed

lemma and_15: "and (v::nat) 15 = v mod 16"
  using take_bit_eq_mask [of 4 v] by (simp add: take_bit_eq_mod mask_eq_exp_minus_1)

lemma and_3: "and (v::nat) 3 = v mod 4"
  using take_bit_eq_mask [of 2 v] by (simp add: take_bit_eq_mod mask_eq_exp_minus_1)

lemma a2b_b2a: "v < 64 \<Longrightarrow> table_a2b_base64 (table_b2a_base64 v) = v"
  by (auto simp: table_a2b_base64_def table_b2a_base64_def)

lemma b2a_alphabet: "v < 64 \<Longrightarrow> table_b2a_base64 v \<noteq> 61 \<and> table_b2a_base64 v < 128 \<and> \<not> is_linebreak (table_b2a_base64 v)"
  by (auto simp: table_b2a_base64_def is_linebreak_def)

lemma a2b_loop_alphabet:
  assumes "v < 64"
  shows "a2b_loop strict qp lc pads False out (table_b2a_base64 v # cs) =
     (if qp = 0 then a2b_loop strict 1 v 0 False out cs
      else if qp = 1 then a2b_loop strict 2 (v mod 16) 0 False (out @ [(lc * 4 + v div 16) mod 256]) cs
      else if qp = 2 then a2b_loop strict 3 (v mod 4) 0 False (out @ [(lc * 16 + v div 4) mod 256]) cs
      else a2b_loop strict 0 0 0 False (out @ [(lc * 64 + v) mod 256]) cs)"
proof -
  have d4: "drop_bit 4 v < 2 ^ 2" using assms by (simp add: drop_bit_eq_div) 
  have d2: "drop_bit 2 v < 2 ^ 4" using assms by (simp add: drop_bit_eq_div)
  have d0: "v < 2 ^ 6" using assms by simp
  have o1: "or (push_bit 2 lc) (drop_bit 4 v) = lc * 4 + v div 16"
    using or_push_bit_small [OF d4, of lc] by (simp add: drop_bit_eq_div)
  have o2: "or (push_bit 4 lc) (drop_bit 2 v) = lc * 16 + v div 4"
    using or_push_bit_small [OF d2, of lc] by (simp add: drop_bit_eq_div)
  have o3: "or (push_bit 6 lc) v = lc * 64 + v"
    using or_push_bit_small [OF d0, of lc] by simp
  show ?thesis
    using assms b2a_alphabet [OF assms]
    by (simp add: a2b_b2a o1 o2 o3 and_15 and_3 Let_def)
qed

lemma a2b_step0:
  assumes "a < 256"
  shows "a2b_loop strict 0 lc pads False out (table_b2a_base64 (a div 4) # cs) =
         a2b_loop strict 1 (a div 4) 0 False out cs"
proof -
  have v: "a div 4 < 64" using assms by simp
  show ?thesis by (subst a2b_loop_alphabet [OF v]) simp
qed

lemma a2b_step1:
  assumes "a < 256" "b < 256"
  shows "a2b_loop strict 1 (a div 4) 0 False out (table_b2a_base64 ((a mod 4) * 16 + b div 16) # cs) =
         a2b_loop strict 2 (b div 16) 0 False (out @ [a]) cs"
proof -
  have v: "(a mod 4) * 16 + b div 16 < 64" using assms by simp
  have x: "(a div 4 * 4 + ((a mod 4) * 16 + b div 16) div 16) mod 256 = a"
    using assms by simp
  have y: "((a mod 4) * 16 + b div 16) mod 16 = b div 16"
    using assms by simp
  show ?thesis by (subst a2b_loop_alphabet [OF v]) (simp only: x y, simp)
qed

lemma a2b_step2:
  assumes "b < 256" "c < 256"
  shows "a2b_loop strict 2 (b div 16) 0 False out (table_b2a_base64 ((b mod 16) * 4 + c div 64) # cs) =
         a2b_loop strict 3 (c div 64) 0 False (out @ [b]) cs"
proof -
  have v: "(b mod 16) * 4 + c div 64 < 64" using assms by simp
  have x: "(b div 16 * 16 + ((b mod 16) * 4 + c div 64) div 4) mod 256 = b"
    using assms by simp
  have y: "((b mod 16) * 4 + c div 64) mod 4 = c div 64"
    using assms by simp
  show ?thesis by (subst a2b_loop_alphabet [OF v]) (simp only: x y, simp)
qed

lemma a2b_step3:
  assumes "c < 256"
  shows "a2b_loop strict 3 (c div 64) 0 False out (table_b2a_base64 (c mod 64) # cs) =
         a2b_loop strict 0 0 0 False (out @ [c]) cs"
proof -
  have v: "c mod 64 < 64" by simp
  have x: "(c div 64 * 64 + c mod 64) mod 256 = c"
    using assms by simp
  show ?thesis by (subst a2b_loop_alphabet [OF v]) (simp only: x, simp)
qed

lemma a2b_pad2: "a2b_loop strict 2 lc 0 False out [61, 61] = Inr out"
  by simp

lemma a2b_pad1: "a2b_loop strict 3 lc 0 False out [61] = Inr out"
  by simp

lemma a2b_loop_encoded:
  assumes "\<forall>b \<in> set bs. b < 256"
  shows "a2b_loop strict 0 0 0 False out (b64encode bs) = Inr (out @ bs)"
  using assms
proof (induction bs arbitrary: out rule: b64encode.induct)
  case 1
  show ?case by simp
next
  case (2 a)
  then have a: "a < 256" by simp
  have z: "(0::nat) < 256" by simp
  have e: "b64encode [a] =
      [table_b2a_base64 (a div 4), table_b2a_base64 ((a mod 4) * 16 + 0 div 16), 61, 61]"
    by simp
  show ?case
    unfolding e a2b_step0 [OF a] a2b_step1 [OF a z] a2b_pad2 by simp
next
  case (3 a b)
  then have a: "a < 256" and b: "b < 256" by simp_all
  have z: "(0::nat) < 256" by simp
  have e: "b64encode [a, b] =
      [table_b2a_base64 (a div 4), table_b2a_base64 ((a mod 4) * 16 + b div 16),
       table_b2a_base64 ((b mod 16) * 4 + 0 div 64), 61]"
    by simp
  show ?case
    unfolding e a2b_step0 [OF a] a2b_step1 [OF a b] a2b_step2 [OF b z] a2b_pad1 by simp
next
  case (4 a b c rest)
  then have a: "a < 256" and b: "b < 256" and c: "c < 256" and r: "\<forall>x \<in> set rest. x < 256"
    by simp_all
  have e: "b64encode (a # b # c # rest) =
      table_b2a_base64 (a div 4) # table_b2a_base64 ((a mod 4) * 16 + b div 16) #
      table_b2a_base64 ((b mod 16) * 4 + c div 64) # table_b2a_base64 (c mod 64) # b64encode rest"
    by simp
  show ?case
    unfolding e a2b_step0 [OF a] a2b_step1 [OF a b] a2b_step2 [OF b c] a2b_step3 [OF c]
      "4.IH" [OF r] by simp
qed

lemma b64encode_alphabet:
  assumes "\<forall>b \<in> set bs. b < 256"
  shows "\<forall>c \<in> set (b64encode bs). c < 128 \<and> \<not> is_linebreak c"
  using assms
proof (induction bs rule: b64encode.induct)
  case 1
  show ?case by simp
next
  case (2 a)
  then have a: "a < 256" by simp
  have "a div 4 < 64" and "(a mod 4) * 16 < 64" using a by simp_all
  then show ?case using b2a_alphabet by (simp add: is_linebreak_def)
next
  case (3 a b)
  then have a: "a < 256" and b: "b < 256" by simp_all
  have "a div 4 < 64" and "(a mod 4) * 16 + b div 16 < 64" and "(b mod 16) * 4 < 64"
    using a b by simp_all
  then show ?case using b2a_alphabet by (simp add: is_linebreak_def)
next
  case (4 a b c rest)
  then have a: "a < 256" and b: "b < 256" and c: "c < 256"
    and r: "\<forall>x \<in> set (b64encode rest). x < 128 \<and> \<not> is_linebreak x"
    by simp_all
  have "a div 4 < 64" and "(a mod 4) * 16 + b div 16 < 64"
    and "(b mod 16) * 4 + c div 64 < 64" and "c mod 64 < 64"
    using a b c by simp_all
  then show ?case using b2a_alphabet r by simp
qed

lemma b64encode_hd:
  assumes "\<forall>b \<in> set bs. b < 256" and "bs \<noteq> []"
  shows "hd (b64encode bs) \<noteq> 61"
proof -
  obtain a rest where bs: "bs = a # rest" using assms(2) by (cases bs) auto
  with assms(1) have "a < 256" by simp
  then have "a div 4 < 64" by simp
  then have "table_b2a_base64 (a div 4) \<noteq> 61" using b2a_alphabet by blast
  moreover have "hd (b64encode (a # rest)) = table_b2a_base64 (a div 4)"
    by (cases rest rule: b64encode.cases) (auto elim: b64encode.elims)
  ultimately show ?thesis by (simp add: bs)
qed

lemma b64decode_b64encode:
  assumes "\<forall>b \<in> set bs. b < 256"
  shows "b64decode (b64encode bs) True = Inr bs"
proof -
  have asc: "\<not> (\<exists>c \<in> set (b64encode bs). c \<ge> 128)"
    using b64encode_alphabet [OF assms] by auto
  show ?thesis
  proof (cases "bs = []")
    case True
    then show ?thesis by (simp add: b64decode_def a2b_base64_def)
  next
    case False
    then show ?thesis
      using asc b64encode_hd [OF assms False] a2b_loop_encoded [OF assms, of True "[]"]
      by (simp add: b64decode_def a2b_base64_def)
  qed
qed

section \<open>Lines and UTF-8\<close>

lemma join_nil: "join [] xs = concat xs"
  by (induction "[] :: nat list" xs rule: join.induct) simp_all

lemma concat_splitlines_from:
  "concat (splitlines_from cur s) = cur @ filter (\<lambda>c. \<not> is_linebreak c) s"
proof (induction cur s rule: splitlines_from.induct)
  case (1 cur)
  show ?case by simp
next
  case (2 cur c)
  show ?case by simp
next
  case (3 cur c d cs)
  have lb: "is_linebreak 13" "is_linebreak 10" by (simp_all add: is_linebreak_def)
  show ?case
  proof (cases "c = 13 \<and> d = 10")
    case True
    then show ?thesis using 3 lb by simp
  next
    case False
    then show ?thesis using 3 by (cases "is_linebreak c") auto
  qed
qed

lemma join_splitlines: "join [] (splitlines s) = filter (\<lambda>c. \<not> is_linebreak c) s"
  by (simp add: join_nil splitlines_def concat_splitlines_from)

lemma split_by_64:
  fixes c :: nat
  shows "c = (c div 4096) * 4096 + ((c div 64) mod 64) * 64 + c mod 64"
    and "c = (c div 262144) * 262144 + ((c div 4096) mod 64) * 4096 + ((c div 64) mod 64) * 64 + c mod 64"
proof -
  have a: "c div 4096 = (c div 64) div 64"
    using div_mult2_eq [of c 64 64] by simp
  have a': "c div 262144 = (c div 4096) div 64"
    using div_mult2_eq [of c 4096 64] by simp
  have b: "c = 64 * (c div 64) + c mod 64" by simp
  have d: "c div 64 = 64 * ((c div 64) div 64) + (c div 64) mod 64" by simp
  have d': "c div 4096 = 64 * ((c div 4096) div 64) + (c div 4096) mod 64" by simp
  show "c = (c div 4096) * 4096 + ((c div 64) mod 64) * 64 + c mod 64"
    using a b d by linarith
  then show "c = (c div 262144) * 262144 + ((c div 4096) mod 64) * 4096 + ((c div 64) mod 64) * 64 + c mod 64"
    using a' d' by linarith
qed

lemma utf8_decode_two:
  assumes "2 \<le> q" "q < 32" "r < 64"
  shows "utf8_decode_replace ((192 + q) # (128 + r) # rest) = (q * 64 + r) # utf8_decode_replace rest"
  using assms by (simp add: is_continuation_def)

lemma utf8_decode_three:
  assumes "q < 16" "r2 < 64" "r < 64" "\<not> (r2 < 32 \<and> q = 0)" "\<not> (32 \<le> r2 \<and> q = 13)"
  shows "utf8_decode_replace ((224 + q) # (128 + r2) # (128 + r) # rest) =
         (q * 4096 + r2 * 64 + r) # utf8_decode_replace rest"
  using assms by (simp add: is_continuation_def)

lemma utf8_decode_four:
  assumes "q < 5" "r3 < 64" "r2 < 64" "r < 64" "\<not> (r3 < 16 \<and> q = 0)" "\<not> (16 \<le> r3 \<and> q = 4)"
  shows "utf8_decode_replace ((240 + q) # (128 + r3) # (128 + r2) # (128 + r) # rest) =
         (q * 262144 + r3 * 4096 + r2 * 64 + r) # utf8_decode_replace rest"
  using assms by (simp add: is_continuation_def)

lemma utf8_decode_encode_char:
  assumes "is_scalar_value c"
  shows "utf8_decode_replace (utf8_encode_char c @ rest) = c # utf8_decode_replace rest"
proof -
  have top: "c < 1114112" using assms by (auto simp: is_scalar_value_def)
  have sur: "c < 55296 \<or> 57344 \<le> c" using assms by (auto simp: is_scalar_value_def)
  have r: "c mod 64 < 64" "(c div 64) mod 64 < 64" "(c div 4096) mod 64 < 64" by simp_all
  note s3 = split_by_64(1) [of c] and s4 = split_by_64(2) [of c]
  from top have "c < 128 \<or> (128 \<le> c \<and> c < 2048) \<or> (2048 \<le> c \<and> c < 65536)
      \<or> (65536 \<le> c \<and> c < 1114112)"
    by linarith
  then consider (one) "c < 128" | (two) "128 \<le> c" "c < 2048" | (three) "2048 \<le> c" "c < 65536"
    | (four) "65536 \<le> c" "c < 1114112"
    by blast
  then show ?thesis
  proof cases
    case one
    then show ?thesis by (simp add: utf8_encode_char_def)
  next
    case two
    have q: "2 \<le> c div 64" "c div 64 < 32" using two by simp_all
    have e: "c div 64 * 64 + c mod 64 = c" by simp
    have "utf8_encode_char c = [192 + c div 64, 128 + c mod 64]"
      using two by (simp add: utf8_encode_char_def)
    then show ?thesis
      using utf8_decode_two [OF q r(1), of rest] e by simp
  next
    case three
    have q: "c div 4096 < 16" using three by simp
    have n1: "\<not> ((c div 64) mod 64 < 32 \<and> c div 4096 = 0)"
      using three s3 r by linarith
    have n2: "\<not> (32 \<le> (c div 64) mod 64 \<and> c div 4096 = 13)"
      using sur s3 r by linarith
    have "utf8_encode_char c = [224 + c div 4096, 128 + (c div 64) mod 64, 128 + c mod 64]"
      using three by (simp add: utf8_encode_char_def)
    then show ?thesis
      using utf8_decode_three [OF q r(2) r(1) n1 n2, of rest] s3 by simp
  next
    case four
    have q: "c div 262144 < 5" using four by simp
    have n1: "\<not> ((c div 4096) mod 64 < 16 \<and> c div 262144 = 0)"
      using four s4 r by linarith
    have n2: "\<not> (16 \<le> (c div 4096) mod 64 \<and> c div 262144 = 4)"
      using four s4 r by linarith
    have "utf8_encode_char c =
        [240 + c div 262144, 128 + (c div 4096) mod 64, 128 + (c div 64) mod 64, 128 + c mod 64]"
      using four by (simp add: utf8_encode_char_def)
    then show ?thesis
      using utf8_decode_four [OF q r(3) r(2) r(1) n1 n2, of rest] s4 by simp
  qed
qed

lemma utf8_decode_encode:
  assumes "\<forall>c \<in> set s. is_scalar_value c"
  shows "utf8_decode_replace (utf8_encode s) = s"
  using assms
  by (induction s) (simp_all add: utf8_encode_def utf8_decode_encode_char del: utf8_decode_replace.simps(2))

lemma utf8_encode_char_bytes:
  assumes "is_scalar_value c"
  shows "\<forall>b \<in> set (utf8_encode_char c). b < 256"
proof -
  have top: "c < 1114112" using assms by (auto simp: is_scalar_value_def)
  then have a: "c div 262144 < 5" by simp
  have b: "c div 4096 < 16" if "c < 65536" using that by simp
  have d: "c div 64 < 32" if "c < 2048" using that by simp
  show ?thesis using a b d by (auto simp: utf8_encode_char_def)
qed

lemma utf8_encode_bytes:
  assumes "\<forall>c \<in> set s. is_scalar_value c"
  shows "\<forall>b \<in> set (utf8_encode s). b < 256"
  using assms utf8_encode_char_bytes by (auto simp: utf8_encode_def)

section \<open>The file reader\<close>

subsection \<open>The round trip\<close>

lemma decode_content_encoded:
  assumes "filter (\<lambda>c. \<not> is_linebreak c) content = b64encode bs"
    and "\<forall>b \<in> set bs. b < 256"
  shows "decode_content (JStr content) = Inr (utf8_decode_replace bs)"
  using assms by (simp add: decode_content_def join_splitlines b64decode_b64encode)

lemma filter_b64encode:
  assumes "\<forall>b \<in> set bs. b < 256"
  shows "filter (\<lambda>c. \<not> is_linebreak c) (b64encode bs) = b64encode bs"
  using b64encode_alphabet [OF assms] by (simp add: filter_id_conv)

text \<open>
  C6. Let \<open>text\<close> be a text of Unicode scalar values, so that its UTF-8 encoding
  is an arbitrary valid UTF-8 byte sequence. In a valid session, when the
  structured response of \<open>read_file\<close> has the encoding \<open>"base64"\<close> and as content
  the base64 encoding of those bytes, as it is or with line breaks inserted
  anywhere, \<open>read_file\<close> returns \<open>text\<close>: the bytes decoded as text.
\<close>

theorem base64_content_round_trip:
  assumes "gh_auth_status e = 0"
    and "fetched e [contents_path owner repo path ref] (JObj items)"
    and "map_of items (ascii ''content'') = Some (JStr content)"
    and "map_of items (ascii ''encoding'') = Some (JStr (ascii ''base64''))"
    and "\<forall>c \<in> set text. is_scalar_value c"
    and "content = b64encode (utf8_encode text)
         \<or> filter (\<lambda>c. \<not> is_linebreak c) content = b64encode (utf8_encode text)"
  shows "fst (read_file owner repo path ref False e) = Inr text"
proof -
  have bytes: "\<forall>b \<in> set (utf8_encode text). b < 256"
    by (rule utf8_encode_bytes [OF assms(5)])
  have "filter (\<lambda>c. \<not> is_linebreak c) content = b64encode (utf8_encode text)"
    using assms(6) filter_b64encode [OF bytes] by auto
  then have "decode_content (JStr content) = Inr text"
    using decode_content_encoded [OF _ bytes] utf8_decode_encode [OF assms(5)] by simp
  then show ?thesis
    unfolding read_file_fetched [OF assms(1,2)]
    using assms(3,4) by (simp add: read_content_def)
qed

text \<open>
  The scenario of the specification: the content \<open>"aGVsbG8=\n"\<close> gives \<open>"hello"\<close>.
\<close>

theorem base64_content_round_trip_witness:
  "gh_auth_status (readme_env (ascii ''aGVsbG8='' @ [10])) = 0
   \<and> fetched (readme_env (ascii ''aGVsbG8='' @ [10]))
        [contents_path (ascii ''acme'') (ascii ''widgets'') (ascii ''/README.md'') None]
        (JObj [(ascii ''content'', JStr (ascii ''aGVsbG8='' @ [10])),
               (ascii ''encoding'', JStr (ascii ''base64''))])
   \<and> is_scalar_value 104 \<and> is_scalar_value 101 \<and> is_scalar_value 108 \<and> is_scalar_value 111
   \<and> ascii ''hello'' = [104, 101, 108, 108, 111]
   \<and> filter (\<lambda>c. \<not> is_linebreak c) (ascii ''aGVsbG8='' @ [10]) =
       b64encode (utf8_encode (ascii ''hello''))
   \<and> fst (read_file (ascii ''acme'') (ascii ''widgets'') (ascii ''/README.md'') None False
             (readme_env (ascii ''aGVsbG8='' @ [10]))) = Inr (ascii ''hello'')"
proof -
  let ?e = "readme_env (ascii ''aGVsbG8='' @ [10])"
  let ?items = "[(ascii ''content'', JStr (ascii ''aGVsbG8='' @ [10])),
               (ascii ''encoding'', JStr (ascii ''base64''))]"
  have a: "gh_auth_status ?e = 0" by (simp add: fake_defs)
  have f: "fetched ?e [contents_path (ascii ''acme'') (ascii ''widgets'') (ascii ''/README.md'') None]
             (JObj ?items)"
    by (simp add: fetched_def run_defs fake_defs dumps_defs startswith_def ascii_def)
  have c: "map_of ?items (ascii ''content'') = Some (JStr (ascii ''aGVsbG8='' @ [10]))"
    by (simp add: ascii_def)
  have n: "map_of ?items (ascii ''encoding'') = Some (JStr (ascii ''base64''))"
    by (simp add: ascii_def)
  have s: "\<forall>c \<in> set (ascii ''hello''). is_scalar_value c"
    by (simp add: ascii_def is_scalar_value_def)
  have b: "filter (\<lambda>c. \<not> is_linebreak c) (ascii ''aGVsbG8='' @ [10]) =
       b64encode (utf8_encode (ascii ''hello''))"
    by (simp add: ascii_def is_linebreak_def utf8_encode_def utf8_encode_char_def
        table_b2a_base64_def)
  have d: "ascii ''aGVsbG8='' @ [10] = b64encode (utf8_encode (ascii ''hello''))
         \<or> filter (\<lambda>c. \<not> is_linebreak c) (ascii ''aGVsbG8='' @ [10]) =
            b64encode (utf8_encode (ascii ''hello''))"
    using b by simp
  have v: "is_scalar_value 104" "is_scalar_value 101" "is_scalar_value 108" "is_scalar_value 111"
    "ascii ''hello'' = [104, 101, 108, 108, 111]"
    by (simp_all add: is_scalar_value_def ascii_def)
  show ?thesis
    using a f b v base64_content_round_trip [OF a f c n s d] by simp
qed

subsection \<open>Responses without content\<close>

lemma big_fetched:
  "fetched big_env [contents_path (ascii ''acme'') (ascii ''widgets'') (ascii ''big.txt'') None]
     (JObj [(ascii ''name'', JStr (ascii ''big.txt'')), (ascii ''download_url'', JStr big_url)])"
  by (simp add: fetched_def run_defs fake_defs dumps_defs startswith_def ascii_def)

text \<open>
  In a valid session, when the parsed response of the structured request is
  an object without a content field (absent or \<open>null\<close>): if its download URL
  is a non-empty string, one raw request for that URL is made and \<open>read_file\<close>
  returns its output decoded permissively, or, when that request fails,
  \<open>"Error fetching raw content: "\<close> followed by the captured standard-error
  bytes as Python formats a \<open>bytes\<close> object; if there is no download URL
  (absent, \<open>null\<close> or empty), no further request is made and the result is
  exactly \<open>"Error: No 'content' key found in response"\<close>.
\<close>

lemma without_content_responses:
  assumes "gh_auth_status e = 0"
    and "fetched e [contents_path owner repo path ref] (JObj items)"
    and "map_of items (ascii ''content'') = None \<or> map_of items (ascii ''content'') = Some JNull"
  shows "(\<forall>url. map_of items (ascii ''download_url'') = Some (JStr url) \<and> url \<noteq> [] \<longrightarrow>
            read_file owner repo path ref False e =
              (Inr (if returncode (gh_api e [ascii ''-H'', ascii ''Accept: application/vnd.github.raw'', url]) = 0
                    then utf8_decode_replace
                           (stdout (gh_api e [ascii ''-H'', ascii ''Accept: application/vnd.github.raw'', url]))
                    else ascii ''Error fetching raw content: '' @
                         bytes_repr
                           (stderr (gh_api e [ascii ''-H'', ascii ''Accept: application/vnd.github.raw'', url]))),
               e\<lparr>invocations := invocations e @
                     [GhAuthStatus, GhApi [contents_path owner repo path ref],
                      GhApi [ascii ''-H'', ascii ''Accept: application/vnd.github.raw'', url]]\<rparr>))
       \<and> (map_of items (ascii ''download_url'') = None
            \<or> map_of items (ascii ''download_url'') = Some JNull
            \<or> map_of items (ascii ''download_url'') = Some (JStr []) \<longrightarrow>
            read_file owner repo path ref False e =
              (Inr (ascii ''Error: No '' @ [39] @ ascii ''content'' @ [39] @
                    ascii '' key found in response''),
               e\<lparr>invocations := invocations e @
                     [GhAuthStatus, GhApi [contents_path owner repo path ref]]\<rparr>))"
proof (intro conjI allI impI)
  fix url
  assume u: "map_of items (ascii ''download_url'') = Some (JStr url) \<and> url \<noteq> []"
  show "read_file owner repo path ref False e =
              (Inr (if returncode (gh_api e [ascii ''-H'', ascii ''Accept: application/vnd.github.raw'', url]) = 0
                    then utf8_decode_replace
                           (stdout (gh_api e [ascii ''-H'', ascii ''Accept: application/vnd.github.raw'', url]))
                    else ascii ''Error fetching raw content: '' @
                         bytes_repr
                           (stderr (gh_api e [ascii ''-H'', ascii ''Accept: application/vnd.github.raw'', url]))),
               e\<lparr>invocations := invocations e @
                     [GhAuthStatus, GhApi [contents_path owner repo path ref],
                      GhApi [ascii ''-H'', ascii ''Accept: application/vnd.github.raw'', url]]\<rparr>)"
    unfolding read_file_fetched [OF assms(1,2)]
    using assms(3) u by (auto simp: read_content_def run_gh_api_command_raw)
next
  assume "map_of items (ascii ''download_url'') = None
            \<or> map_of items (ascii ''download_url'') = Some JNull
            \<or> map_of items (ascii ''download_url'') = Some (JStr [])"
  then show "read_file owner repo path ref False e =
              (Inr (ascii ''Error: No '' @ [39] @ ascii ''content'' @ [39] @
                    ascii '' key found in response''),
               e\<lparr>invocations := invocations e @
                     [GhAuthStatus, GhApi [contents_path owner repo path ref]]\<rparr>)"
    unfolding read_file_fetched [OF assms(1,2)]
    using assms(3) by (auto simp: read_content_def no_content_error_def)
qed

text \<open>
  A file without inline content whose download URL answers \<open>hello\<close>.
\<close>

lemma without_content_responses_example:
  \<open>gh_auth_status big_env = 0
   \<and> fetched big_env [contents_path (ascii ''acme'') (ascii ''widgets'') (ascii ''big.txt'') None]
        (JObj [(ascii ''name'', JStr (ascii ''big.txt'')), (ascii ''download_url'', JStr big_url)])
   \<and> map_of [(ascii ''name'', JStr (ascii ''big.txt'')), (ascii ''download_url'', JStr big_url)]
        (ascii ''content'') = None
   \<and> map_of [(ascii ''name'', JStr (ascii ''big.txt'')), (ascii ''download_url'', JStr big_url)]
        (ascii ''download_url'') = Some (JStr big_url)
   \<and> big_url \<noteq> []
   \<and> read_file (ascii ''acme'') (ascii ''widgets'') (ascii ''big.txt'') None False big_env =
       (Inr (ascii ''hello''),
        big_env\<lparr>invocations :=
          [GhAuthStatus, GhApi [ascii ''repos/acme/widgets/contents//big.txt''],
           GhApi [ascii ''-H'', ascii ''Accept: application/vnd.github.raw'', big_url]]\<rparr>)\<close>
proof -
  let ?items = "[(ascii ''name'', JStr (ascii ''big.txt'')), (ascii ''download_url'', JStr big_url)]"
  have a: "gh_auth_status big_env = 0" by (simp add: fake_defs)
  have c0: "map_of ?items (ascii ''content'') = None" by (simp add: ascii_def)
  then have c: "map_of ?items (ascii ''content'') = None
      \<or> map_of ?items (ascii ''content'') = Some JNull" by simp
  have d: "map_of ?items (ascii ''download_url'') = Some (JStr big_url)" by (simp add: ascii_def)
  have u: "big_url \<noteq> []" by (simp add: big_url_def ascii_def)
  have g: "gh_api big_env [ascii ''-H'', ascii ''Accept: application/vnd.github.raw'', big_url] =
           writes (ascii ''hello'')"
    by (simp add: fake_defs ascii_def)
  have p: "contents_path (ascii ''acme'') (ascii ''widgets'') (ascii ''big.txt'') None =
           ascii ''repos/acme/widgets/contents//big.txt''"
    by (simp add: contents_path_def startswith_def ascii_def)
  have i: "invocations big_env = []" by (simp add: fake_defs)
  have r: "read_file (ascii ''acme'') (ascii ''widgets'') (ascii ''big.txt'') None False big_env =
       (Inr (ascii ''hello''),
        big_env\<lparr>invocations :=
          [GhAuthStatus, GhApi [ascii ''repos/acme/widgets/contents//big.txt''],
           GhApi [ascii ''-H'', ascii ''Accept: application/vnd.github.raw'', big_url]]\<rparr>)"
    using without_content_responses [OF a big_fetched c, THEN conjunct1, rule_format, of big_url] d u
    by (simp add: g p i writes_def) (simp add: ascii_def)
  show ?thesis
    using a big_fetched c0 d u r by simp
qed

subsection \<open>A failing download\<close>

lemma gone_fetched:
  "fetched big_env_gone [contents_path (ascii ''acme'') (ascii ''widgets'') (ascii ''big.txt'') None]
     (JObj [(ascii ''name'', JStr (ascii ''big.txt'')), (ascii ''download_url'', JStr big_url)])"
  by (simp add: fetched_def run_defs fake_defs dumps_defs startswith_def ascii_def)

text \<open>
  C7 fails on the program. When the fallback fetch fails, the error string
  does not embed the captured standard-error text. The executor captures
  bytes, although it is annotated as returning text, and the handler formats
  them as they are, where the success path beside it decodes the captured
  output: the string holds the bytes as a literal, between \<open>b'\<close> and \<open>'\<close>, with
  the line end of the diagnostic written as a backslash and \<open>n\<close>. For the
  diagnostic line \<open>gh: Not Found (HTTP 404)\<close> the text of standard error does
  not occur in what \<open>read_file\<close> returns; it occurs in the string the
  specification describes. The fetch itself and the fixed string of a response
  without download URL are as specified.
\<close>

theorem raw_fetch_failure_shows_bytes_repr:
  \<open>gh_api big_env_gone [ascii ''-H'', ascii ''Accept: application/vnd.github.raw'', big_url] =
       \<lparr>returncode = 1, stdout = [], stderr = ascii ''gh: Not Found (HTTP 404)'' @ [10]\<rparr>
   \<and> read_file (ascii ''acme'') (ascii ''widgets'') (ascii ''big.txt'') None False big_env_gone =
       (Inr (ascii ''Error fetching raw content: b'' @ [39] @ ascii ''gh: Not Found (HTTP 404)'' @
             [92, 110, 39]),
        big_env_gone\<lparr>invocations :=
          [GhAuthStatus, GhApi [ascii ''repos/acme/widgets/contents//big.txt''],
           GhApi [ascii ''-H'', ascii ''Accept: application/vnd.github.raw'', big_url]]\<rparr>)
   \<and> \<not> spec_embeds_stderr_text (ascii ''gh: Not Found (HTTP 404)'' @ [10])
         (fst (read_file (ascii ''acme'') (ascii ''widgets'') (ascii ''big.txt'') None False
                 big_env_gone))
   \<and> spec_embeds_stderr_text (ascii ''gh: Not Found (HTTP 404)'' @ [10])
         (Inr (ascii ''Error fetching raw content: gh: Not Found (HTTP 404)'' @ [10]))\<close>
proof -
  let ?items = "[(ascii ''name'', JStr (ascii ''big.txt'')), (ascii ''download_url'', JStr big_url)]"
  let ?argv = "[ascii ''-H'', ascii ''Accept: application/vnd.github.raw'', big_url]"
  have a: "gh_auth_status big_env_gone = 0" by (simp add: fake_defs)
  have c: "map_of ?items (ascii ''content'') = None
      \<or> map_of ?items (ascii ''content'') = Some JNull" by (simp add: ascii_def)
  have d: "map_of ?items (ascii ''download_url'') = Some (JStr big_url)" by (simp add: ascii_def)
  have u: "big_url \<noteq> []" by (simp add: big_url_def ascii_def)
  have g: "gh_api big_env_gone ?argv =
           \<lparr>returncode = 1, stdout = [], stderr = ascii ''gh: Not Found (HTTP 404)'' @ [10]\<rparr>"
    by (simp add: fake_defs ascii_def)
  have p: "contents_path (ascii ''acme'') (ascii ''widgets'') (ascii ''big.txt'') None =
           ascii ''repos/acme/widgets/contents//big.txt''"
    by (simp add: contents_path_def startswith_def ascii_def)
  have i: "invocations big_env_gone = []" by (simp add: fake_defs)
  have b: "bytes_repr (ascii ''gh: Not Found (HTTP 404)'' @ [10]) =
           [98, 39] @ ascii ''gh: Not Found (HTTP 404)'' @ [92, 110, 39]"
    by (simp add: bytes_repr_def repr_quote_def bytes_repr_char_def ascii_def)
  have r: "read_file (ascii ''acme'') (ascii ''widgets'') (ascii ''big.txt'') None False big_env_gone =
       (Inr (ascii ''Error fetching raw content: b'' @ [39] @ ascii ''gh: Not Found (HTTP 404)'' @
             [92, 110, 39]),
        big_env_gone\<lparr>invocations :=
          [GhAuthStatus, GhApi [ascii ''repos/acme/widgets/contents//big.txt''],
           GhApi ?argv]\<rparr>)"
    using without_content_responses [OF a gone_fetched c, THEN conjunct1, rule_format, of big_url] d u
    by (simp add: g p i b) (simp add: ascii_def)
  have t: "utf8_decode_replace (ascii ''gh: Not Found (HTTP 404)'' @ [10]) =
           ascii ''gh: Not Found (HTTP 404)'' @ [10]"
    by (simp add: ascii_def)
  have n: "\<not> spec_embeds_stderr_text (ascii ''gh: Not Found (HTTP 404)'' @ [10])
         (fst (read_file (ascii ''acme'') (ascii ''widgets'') (ascii ''big.txt'') None False
                 big_env_gone))"
    unfolding r spec_embeds_stderr_text_def t
    by (simp add: startswith_def ascii_def)
  have y: "spec_embeds_stderr_text (ascii ''gh: Not Found (HTTP 404)'' @ [10])
         (Inr (ascii ''Error fetching raw content: gh: Not Found (HTTP 404)'' @ [10]))"
    unfolding spec_embeds_stderr_text_def t
    by (simp add: startswith_def ascii_def)
  show ?thesis
    using g r n y by simp
qed

subsection \<open>Whitespace in the content\<close>

text \<open>
  C3 fails on the program. Joining the lines of \<open>"aGVs bG8="\<close> leaves the space
  in place, so the strict decode is attempted on a string that still holds
  it and raises; the result \<open>"hello"\<close> comes from the lenient retry, which skips
  the space. A no-break space after the payload is not removed either, and
  the \<open>ValueError\<close> it causes propagates.
\<close>

theorem spaces_reach_strict_decode:
  \<open>join [] (splitlines (ascii ''aGVs bG8='')) = ascii ''aGVs bG8=''
   \<and> b64decode (ascii ''aGVs bG8='') True = Inl (BinasciiError (ascii ''Only base64 data is allowed''))
   \<and> b64decode (ascii ''aGVs bG8='') False = Inr (ascii ''hello'')
   \<and> fst (read_file (ascii ''acme'') (ascii ''widgets'') (ascii ''/README.md'') None False
             (readme_env (ascii ''aGVs bG8=''))) = Inr (ascii ''hello'')
   \<and> fst (read_file (ascii ''acme'') (ascii ''widgets'') (ascii ''/README.md'') None False
             (readme_env (ascii ''aGVsbG8='' @ [160]))) =
       Inl (ValueError (ascii ''string argument should contain only ASCII characters''))\<close>
proof -
  have n: "join [] (splitlines (ascii ''aGVs bG8='')) = ascii ''aGVs bG8=''"
    by (simp add: join_splitlines is_linebreak_def ascii_def)
  have s: "b64decode (ascii ''aGVs bG8='') True =
           Inl (BinasciiError (ascii ''Only base64 data is allowed''))"
    by (simp add: b64decode_def a2b_base64_def table_a2b_base64_def ascii_def)
  have l: "b64decode (ascii ''aGVs bG8='') False = Inr (ascii ''hello'')"
    by (simp add: b64decode_def a2b_base64_def table_a2b_base64_def ascii_def
        push_bit_eq_mult drop_bit_eq_div and_15 and_3 or_push_bit_small)
  have r1: "fst (read_file (ascii ''acme'') (ascii ''widgets'') (ascii ''/README.md'') None False
             (readme_env (ascii ''aGVs bG8=''))) = decode_content (JStr (ascii ''aGVs bG8=''))"
    by (simp add: run_defs fake_defs dumps_defs read_content_def startswith_def ascii_def)
  have d1: "decode_content (JStr (ascii ''aGVs bG8='')) = Inr (ascii ''hello'')"
    unfolding decode_content_def by (simp add: n s l) (simp add: ascii_def)
  have n2: "join [] (splitlines (ascii ''aGVsbG8='' @ [160])) = ascii ''aGVsbG8='' @ [160]"
    by (simp add: join_splitlines is_linebreak_def ascii_def)
  have r2: "fst (read_file (ascii ''acme'') (ascii ''widgets'') (ascii ''/README.md'') None False
             (readme_env (ascii ''aGVsbG8='' @ [160]))) =
            decode_content (JStr (ascii ''aGVsbG8='' @ [160]))"
    by (simp add: run_defs fake_defs dumps_defs read_content_def startswith_def ascii_def)
  have d2: "decode_content (JStr (ascii ''aGVsbG8='' @ [160])) =
            Inl (ValueError (ascii ''string argument should contain only ASCII characters''))"
    unfolding decode_content_def by (simp add: n2 b64decode_def)
  show ?thesis
    by (simp only: n s l r1 d1 r2 d2 simp_thms)
qed

section \<open>Exceptions that reach the host\<close>

text \<open>
  C2 fails on the program. The contents endpoint answers a directory path
  with a JSON array; \<open>read_file\<close> then calls \<open>get\<close> on a list and the
  \<open>AttributeError\<close> propagates to the host. Likewise \<open>list_tree\<close> raises
  \<open>TypeError\<close> when the body of the tree response is \<open>null\<close>.
\<close>

theorem non_object_body_raises:
  "fst (read_file (ascii ''acme'') (ascii ''widgets'') (ascii ''lib'') None False lib_env) =
     Inl AttributeError
   \<and> fst (list_tree (ascii ''acme'') (ascii ''widgets'') (Some (ascii ''main'')) None (ascii ''all'')
            null_env) = Inl TypeError"
  by (simp add: run_defs fake_defs dumps_defs tree_defs read_content_def startswith_def ascii_def)

end
